theory Spec2Isabelle
  imports Complex_Main "HOL-Library.Sublist"
begin

section \<open>Common data\<close>

text \<open>
  Python exceptions that the modelled code can raise.  The losses and loss weights of
  \<^verbatim>\<open>train.py\<close> are idealised as \<^typ>\<open>real\<close>; Python integers (steps, intervals) are
  \<^typ>\<open>int\<close>.  The elements of the feature tensors of the object encoder are floats with
  their infinite and \<^verbatim>\<open>nan\<close> values, introduced with the encoder.
\<close>

datatype error =
    AssertionError
  | NotImplementedError
  | ZeroDivisionError
  | IndexError
  | ValueError
  | RuntimeError

section \<open>The training loop (\<^verbatim>\<open>src/exp/ground/train.py\<close>)\<close>

subsection \<open>Configuration, model and collaborators\<close>

text \<open>The fields of \<^verbatim>\<open>exp_const\<close> (the variable \<open>ec\<close> below) that \<^verbatim>\<open>train.py\<close> reads.\<close>

record exp_const =
  exp_name :: string
  model_dir :: string
  optimizer :: string
  dataset :: string
  lr :: real
  momentum :: real
  num_epochs :: int
  log_step :: int
  model_save_step :: int
  val_step :: int
  num_val_samples :: "int option"
  self_sup_loss_wt :: real
  lang_sup_loss_wt :: real
  neg_noun_loss_wt :: real
  random_lang :: bool
  contextualize :: bool

text \<open>
  The \<^verbatim>\<open>model\<close> object: four modules and \<^verbatim>\<open>model.const.model_num\<close>.  A module is
  represented by its weights \<open>'sd\<close>, which is what \<^verbatim>\<open>state_dict()\<close> returns.
\<close>

record 'sd model =
  object_encoder :: 'sd
  self_sup_criterion :: 'sd
  lang_sup_criterion :: 'sd
  cap_encoder :: 'sd
  model_num :: int

text \<open>
  The values stored in a checkpoint dictionary, and the dictionary itself (a Python dict
  literal, kept in the order of its keys).
\<close>

datatype 'sd pyval = StateDictV 'sd | IntV int | FloatV real | NoneV

type_synonym 'sd checkpoint = "(string \<times> 'sd pyval) list"

text \<open>
  The observable effects, in the order in which the code performs them:
  setting the module mode (\<^verbatim>\<open>.train()\<close>, \<^verbatim>\<open>.eval()\<close>), a forward pass over one batch
  (with the module mode and the autograd mode it ran in), the three calls of the
  backward pass, \<^verbatim>\<open>tb_writer.add_scalar(name,value,step)\<close> and
  \<^verbatim>\<open>torch.save(dict,path)\<close>.  Text printed to standard output is not modelled.
\<close>

datatype 'sd event =
    SetTraining bool
  | Forward bool bool
  | ZeroGrad
  | Backward real
  | OptStep
  | AddScalar string real int
  | Save string "'sd checkpoint"

text \<open>
  The objects that outlive a call of \<^verbatim>\<open>train_model\<close>: the model, the mode of its modules,
  torch's global autograd switch, and the log of effects.
\<close>

record 'sd world =
  net :: "'sd model"
  training :: bool
  grad_enabled :: bool
  trace :: "'sd event list"

text \<open>The local variables of \<^verbatim>\<open>train_model\<close> on top of that.\<close>

record ('sd, 'o) tstate = "'sd world" +
  opt :: 'o
  step :: int
  best_val_loss :: real

text \<open>
  What lies outside \<^verbatim>\<open>src/\<close> is a parameter: the size of a batch
  (\<^verbatim>\<open>object_features.size(0)\<close>), the three loss terms that the forward pass of lines
  85--152 (and 266--313) computes from the configuration, the module mode, the weights and
  the batch, the two optimizer constructors, and what \<^verbatim>\<open>opt.zero_grad()\<close>,
  \<^verbatim>\<open>loss.backward()\<close>, \<^verbatim>\<open>opt.step()\<close> do to the optimizer and the weights.
\<close>

record ('sd, 'o, 'b) torch =
  batch_size :: "'b \<Rightarrow> nat"
  losses :: "exp_const \<Rightarrow> bool \<Rightarrow> 'sd model \<Rightarrow> 'b \<Rightarrow> real \<times> real \<times> real"
  optim_SGD :: "'sd list \<Rightarrow> real \<Rightarrow> real \<Rightarrow> 'o"
  optim_Adam :: "'sd list \<Rightarrow> real \<Rightarrow> 'o"
  backward_step :: "'o \<Rightarrow> 'sd model \<Rightarrow> 'b \<Rightarrow> real \<Rightarrow> 'o \<times> 'sd model"

text \<open>
  A \<^verbatim>\<open>DataLoader\<close> with \<^verbatim>\<open>shuffle=True\<close> yields a fresh sequence of batches on every pass.
  The training loader is indexed by the epoch of the pass, the validation loader by the
  step at which \<^verbatim>\<open>eval_model\<close> is called.
\<close>

record 'b dataloaders =
  train :: "nat \<Rightarrow> 'b list"
  val :: "int \<Rightarrow> 'b list"

subsection \<open>Helpers: effects, strings, sequencing\<close>

definition emit :: "'sd event list \<Rightarrow> ('sd, 'z) world_scheme \<Rightarrow> ('sd, 'z) world_scheme" where
  "emit evs s = s\<lparr>trace := trace s @ evs\<rparr>"

definition set_mode :: "bool \<Rightarrow> ('sd, 'z) world_scheme \<Rightarrow> ('sd, 'z) world_scheme" where
  "set_mode b s = emit [SetTraining b] (s\<lparr>training := b\<rparr>)"

text \<open>\<^verbatim>\<open>with torch.no_grad():\<close> switches autograd off and restores it on exit, also when
  the body raises.\<close>

definition no_grad ::
  "(('sd, 'z) world_scheme \<Rightarrow> 'a \<times> ('sd, 'z) world_scheme) \<Rightarrow>
   ('sd, 'z) world_scheme \<Rightarrow> 'a \<times> ('sd, 'z) world_scheme" where
  "no_grad body s =
     (case body (s\<lparr>grad_enabled := False\<rparr>) of
        (r, s') \<Rightarrow> (r, s'\<lparr>grad_enabled := grad_enabled s\<rparr>))"

text \<open>Statements in sequence: the second runs only if the first did not raise.\<close>

definition seq ::
  "('s \<Rightarrow> error option \<times> 's) \<Rightarrow> ('s \<Rightarrow> error option \<times> 's) \<Rightarrow> 's \<Rightarrow> error option \<times> 's" where
  "seq f g s = (case f s of (Some e, s') \<Rightarrow> (Some e, s') | (None, s') \<Rightarrow> g s')"

text \<open>\<^verbatim>\<open>str(n)\<close> for an integer, as the f-string \<^verbatim>\<open>f'{name}_{step}'\<close> formats it.\<close>

definition digit_char :: "nat \<Rightarrow> char" where
  "digit_char n = ''0123456789'' ! (n mod 10)"

fun str_nat :: "nat \<Rightarrow> string" where
  "str_nat n = (if n < 10 then [digit_char n] else str_nat (n div 10) @ [digit_char n])"

declare str_nat.simps [simp del]

definition str_int :: "int \<Rightarrow> string" where
  "str_int i = (if i < 0 then CHR ''-'' # str_nat (nat (- i)) else str_nat (nat i))"

text \<open>\<^verbatim>\<open>os.path.join(a, b)\<close> on POSIX.\<close>

definition path_join :: "string \<Rightarrow> string \<Rightarrow> string" where
  "path_join a b =
     (if b \<noteq> [] \<and> hd b = CHR ''/'' then b
      else if a = [] \<or> last a = CHR ''/'' then a @ b
      else a @ ''/'' @ b)"

text \<open>\<^verbatim>\<open>step % k == 0\<close>: Python raises \<^verbatim>\<open>ZeroDivisionError\<close> for \<open>k = 0\<close>; for other \<open>k\<close>
  Python's \<^verbatim>\<open>%\<close> on integers is HOL's \<open>mod\<close> (the sign follows the divisor).\<close>

definition when_step ::
  "int \<Rightarrow> (('sd, 'o) tstate \<Rightarrow> error option \<times> ('sd, 'o) tstate) \<Rightarrow>
   ('sd, 'o) tstate \<Rightarrow> error option \<times> ('sd, 'o) tstate" where
  "when_step k body s =
     (if k = 0 then (Some ZeroDivisionError, s)
      else if step s mod k = 0 then body s
      else (None, s))"

definition add_scalars ::
  "(string \<times> real) list \<Rightarrow> ('sd, 'o) tstate \<Rightarrow> ('sd, 'o) tstate" where
  "add_scalars log_items s = emit (map (\<lambda>(name, v). AddScalar name v (step s)) log_items) s"

subsection \<open>\<^verbatim>\<open>eval_model\<close> (lines 248--336)\<close>

record eval_results =
  self_sup_loss :: real
  lang_sup_loss :: real
  neg_noun_loss :: real
  total_loss :: real

text \<open>
  The loop of lines 260--320 with its four accumulators.  It stops before a batch as soon
  as \<^verbatim>\<open>num_val_samples\<close> is set and reached.
\<close>

fun eval_batches ::
  "('sd, 'o, 'b) torch \<Rightarrow> exp_const \<Rightarrow> 'b list \<Rightarrow> real \<Rightarrow> real \<Rightarrow> real \<Rightarrow> nat \<Rightarrow>
   ('sd, 'z) world_scheme \<Rightarrow> (real \<times> real \<times> real \<times> nat) \<times> ('sd, 'z) world_scheme" where
  "eval_batches T ec [] avg_self avg_lang avg_neg num_samples s =
     ((avg_self, avg_lang, avg_neg, num_samples), s)"
| "eval_batches T ec (data # rest) avg_self avg_lang avg_neg num_samples s =
     (if (case num_val_samples ec of None \<Rightarrow> False | Some k \<Rightarrow> int num_samples \<ge> k)
      then ((avg_self, avg_lang, avg_neg, num_samples), s)
      else
        (case losses T ec (training s) (net s) data of
           (self_sup, lang_sup, neg_noun) \<Rightarrow>
             eval_batches T ec rest
               (avg_self + self_sup * real (batch_size T data))
               (avg_lang + lang_sup * real (batch_size T data))
               (avg_neg + neg_noun * real (batch_size T data))
               (num_samples + batch_size T data)
               (emit [Forward (training s) (grad_enabled s)] s)))"

text \<open>
  The \<^verbatim>\<open>step\<close> argument of the source is not used there and is left out.  The division
  by \<^verbatim>\<open>num_samples\<close> raises \<^verbatim>\<open>ZeroDivisionError\<close> when no sample was processed.
\<close>

definition eval_model ::
  "('sd, 'o, 'b) torch \<Rightarrow> exp_const \<Rightarrow> 'b list \<Rightarrow> ('sd, 'z) world_scheme \<Rightarrow>
   (error + eval_results) \<times> ('sd, 'z) world_scheme" where
  "eval_model T ec dataloader s =
     (case eval_batches T ec dataloader 0 0 0 0 (set_mode False s) of
        ((avg_self, avg_lang, avg_neg, num_samples), s') \<Rightarrow>
          if num_samples = 0 then (Inl ZeroDivisionError, s')
          else
            (Inr \<lparr>self_sup_loss = avg_self / real num_samples,
                  lang_sup_loss = avg_lang / real num_samples,
                  neg_noun_loss = avg_neg / real num_samples,
                  total_loss =
                    self_sup_loss_wt ec * (avg_self / real num_samples) +
                    lang_sup_loss_wt ec * (avg_lang / real num_samples) +
                    neg_noun_loss_wt ec * (avg_neg / real num_samples)\<rparr>, s'))"

subsection \<open>\<^verbatim>\<open>train_model\<close> (lines 47--245)\<close>

text \<open>Lines 77--161 of one iteration: mode, forward pass, combined loss, backward pass.\<close>

definition forward_backward ::
  "('sd, 'o, 'b) torch \<Rightarrow> exp_const \<Rightarrow> 'b \<Rightarrow> ('sd, 'o) tstate \<Rightarrow>
   (real \<times> real \<times> real \<times> real) \<times> ('sd, 'o) tstate" where
  "forward_backward T ec data s0 =
     (let s1 = set_mode True s0 in
      case losses T ec (training s1) (net s1) data of
        (self_sup, lang_sup, neg_noun) \<Rightarrow>
          let s2 = emit [Forward (training s1) (grad_enabled s1)] s1;
              loss = self_sup_loss_wt ec * self_sup +
                     lang_sup_loss_wt ec * lang_sup +
                     neg_noun_loss_wt ec * neg_noun
          in case backward_step T (opt s2) (net s2) data loss of
               (opt', net') \<Rightarrow>
                 ((self_sup, lang_sup, neg_noun, loss),
                  emit [ZeroGrad, Backward loss, OptStep] (s2\<lparr>net := net', opt := opt'\<rparr>)))"

text \<open>Lines 163--177: the training scalars, every \<^verbatim>\<open>log_step\<close> steps.\<close>

definition train_log_items ::
  "exp_const \<Rightarrow> real \<times> real \<times> real \<times> real \<Rightarrow> (string \<times> real) list" where
  "train_log_items ec ls =
     (case ls of (self_sup, lang_sup, neg_noun, loss) \<Rightarrow>
        [(''Self_Sup_Loss/Train'', self_sup),
         (''Lang_Sup_Loss/Train'', lang_sup),
         (''Neg_Noun_Loss/Train'', neg_noun),
         (''Loss/Train'', loss),
         (''Lr'', lr ec)])"

definition log_block ::
  "exp_const \<Rightarrow> real \<times> real \<times> real \<times> real \<Rightarrow> ('sd, 'o) tstate \<Rightarrow>
   error option \<times> ('sd, 'o) tstate" where
  "log_block ec ls =
     when_step (log_step ec) (\<lambda>s. (None, add_scalars (train_log_items ec ls) s))"

text \<open>Lines 179--180 only print; the test \<^verbatim>\<open>step%(50*log_step)==0\<close> is still evaluated.\<close>

definition print_block ::
  "exp_const \<Rightarrow> ('sd, 'o) tstate \<Rightarrow> error option \<times> ('sd, 'o) tstate" where
  "print_block ec = when_step (50 * log_step ec) (\<lambda>s. (None, s))"

text \<open>Lines 182--200: the periodic checkpoints, one file per module.\<close>

definition save_items :: "exp_const \<Rightarrow> 'sd model \<Rightarrow> (string \<times> 'sd) list" where
  "save_items ec m =
     [(''object_encoder'', object_encoder m),
      (''self_sup_criterion'', self_sup_criterion m),
      (''lang_sup_criterion'', lang_sup_criterion m)] @
     (if random_lang ec then [(''cap_encoder'', cap_encoder m)] else [])"

definition periodic_checkpoints :: "exp_const \<Rightarrow> ('sd, 'o) tstate \<Rightarrow> 'sd event list" where
  "periodic_checkpoints ec s =
     map (\<lambda>(name, sd).
            Save (path_join (model_dir ec) (name @ ''_'' @ str_int (step s)))
              [(''state_dict'', StateDictV sd),
               (''step'', IntV (step s)),
               (''val_loss'', NoneV),
               (''prev_best_val_loss'', FloatV (best_val_loss s))])
         (save_items ec (net s))"

definition save_block ::
  "exp_const \<Rightarrow> ('sd, 'o) tstate \<Rightarrow> error option \<times> ('sd, 'o) tstate" where
  "save_block ec =
     when_step (model_save_step ec) (\<lambda>s. (None, emit (periodic_checkpoints ec s) s))"

text \<open>Lines 202--243: validation every \<^verbatim>\<open>val_step\<close> steps and the best checkpoints.\<close>

definition val_log_items :: "eval_results \<Rightarrow> (string \<times> real) list" where
  "val_log_items res =
     [(''Self_Sup_Loss/Val'', self_sup_loss res),
      (''Lang_Sup_Loss/Val'', lang_sup_loss res),
      (''Neg_Noun_Loss/Val'', neg_noun_loss res),
      (''Loss/Val'', total_loss res)]"

definition best_save_items :: "exp_const \<Rightarrow> 'sd model \<Rightarrow> (string \<times> 'sd) list" where
  "best_save_items ec m =
     [(''best_object_encoder'', object_encoder m),
      (''best_self_sup_criterion'', self_sup_criterion m),
      (''best_lang_sup_criterion'', lang_sup_criterion m)] @
     (if random_lang ec then [(''best_cap_encoder'', cap_encoder m)] else [])"

definition best_checkpoints ::
  "exp_const \<Rightarrow> real \<Rightarrow> ('sd, 'o) tstate \<Rightarrow> 'sd event list" where
  "best_checkpoints ec val_loss s =
     map (\<lambda>(name, sd).
            Save (path_join (model_dir ec) name)
              [(''state_dict'', StateDictV sd),
               (''step'', IntV (step s)),
               (''val_loss'', FloatV val_loss),
               (''prev_best_val_loss'', FloatV (best_val_loss s))])
         (best_save_items ec (net s))"

definition save_best ::
  "exp_const \<Rightarrow> real \<Rightarrow> ('sd, 'o) tstate \<Rightarrow> ('sd, 'o) tstate" where
  "save_best ec val_loss s =
     (if val_loss < best_val_loss s then
        (emit (best_checkpoints ec val_loss s) s)\<lparr>best_val_loss := val_loss\<rparr>
      else s)"

definition val_block ::
  "('sd, 'o, 'b) torch \<Rightarrow> exp_const \<Rightarrow> 'b dataloaders \<Rightarrow> ('sd, 'o) tstate \<Rightarrow>
   error option \<times> ('sd, 'o) tstate" where
  "val_block T ec dataloaders =
     when_step (val_step ec)
       (\<lambda>s. case no_grad (eval_model T ec (val dataloaders (step s))) s of
               (Inl e, s1) \<Rightarrow> (Some e, s1)
             | (Inr res, s1) \<Rightarrow>
                 (None, save_best ec (total_loss res) (add_scalars (val_log_items res) s1)))"

definition incr_step :: "('sd, 'o) tstate \<Rightarrow> error option \<times> ('sd, 'o) tstate" where
  "incr_step s = (None, s\<lparr>step := step s + 1\<rparr>)"

text \<open>The body of the inner loop, lines 77--245.\<close>

definition train_step ::
  "('sd, 'o, 'b) torch \<Rightarrow> exp_const \<Rightarrow> 'b dataloaders \<Rightarrow> 'b \<Rightarrow> ('sd, 'o) tstate \<Rightarrow>
   error option \<times> ('sd, 'o) tstate" where
  "train_step T ec dataloaders data s =
     (case forward_backward T ec data s of
        (ls, s') \<Rightarrow>
          seq (log_block ec ls)
            (seq (print_block ec)
               (seq (save_block ec)
                  (seq (val_block T ec dataloaders) incr_step))) s')"

text \<open>The inner loop over the batches of one pass, and the outer loop over the epochs.\<close>

fun train_batches ::
  "('sd, 'o, 'b) torch \<Rightarrow> exp_const \<Rightarrow> 'b dataloaders \<Rightarrow> 'b list \<Rightarrow> ('sd, 'o) tstate \<Rightarrow>
   error option \<times> ('sd, 'o) tstate" where
  "train_batches T ec dataloaders [] s = (None, s)"
| "train_batches T ec dataloaders (data # rest) s =
     seq (train_step T ec dataloaders data) (train_batches T ec dataloaders rest) s"

fun train_epochs ::
  "('sd, 'o, 'b) torch \<Rightarrow> exp_const \<Rightarrow> 'b dataloaders \<Rightarrow> nat list \<Rightarrow> ('sd, 'o) tstate \<Rightarrow>
   error option \<times> ('sd, 'o) tstate" where
  "train_epochs T ec dataloaders [] s = (None, s)"
| "train_epochs T ec dataloaders (epoch # rest) s =
     seq (train_batches T ec dataloaders (train dataloaders epoch))
         (train_epochs T ec dataloaders rest) s"

text \<open>Lines 48--67: the parameter groups and the optimizer; the \<^verbatim>\<open>else\<close> branch is
  \<^verbatim>\<open>assert(False)\<close>.\<close>

definition opt_params :: "exp_const \<Rightarrow> 'sd model \<Rightarrow> 'sd list" where
  "opt_params ec m =
     [object_encoder m, self_sup_criterion m, lang_sup_criterion m] @
     (if random_lang ec then [cap_encoder m] else [])"

definition create_optimizer ::
  "('sd, 'o, 'b) torch \<Rightarrow> exp_const \<Rightarrow> 'sd model \<Rightarrow> error + 'o" where
  "create_optimizer T ec m =
     (if optimizer ec = ''SGD'' then
        Inr (optim_SGD T (opt_params ec m) (lr ec) (momentum ec))
      else if optimizer ec = ''Adam'' then
        Inr (optim_Adam T (opt_params ec m) (lr ec))
      else Inl AssertionError)"

text \<open>Lines 69--74: the first step and the initial best loss.\<close>

definition init_state :: "'sd world \<Rightarrow> 'o \<Rightarrow> ('sd, 'o) tstate" where
  "init_state w opt0 =
     \<lparr>net = net w, training = training w, grad_enabled = grad_enabled w, trace = trace w,
      opt = opt0,
      step = (if model_num (net w) = - 1 then 0 else model_num (net w)),
      best_val_loss = 10000\<rparr>"

definition final_world :: "('sd, 'o) tstate \<Rightarrow> 'sd world" where
  "final_world s =
     \<lparr>net = net s, training = training s, grad_enabled = grad_enabled s, trace = trace s\<rparr>"

definition train_model ::
  "('sd, 'o, 'b) torch \<Rightarrow> 'b dataloaders \<Rightarrow> exp_const \<Rightarrow> 'sd world \<Rightarrow>
   error option \<times> 'sd world" where
  "train_model T dataloaders ec w =
     (case create_optimizer T ec (net w) of
        Inl e \<Rightarrow> (Some e, w)
      | Inr opt0 \<Rightarrow>
          (case train_epochs T ec dataloaders [0..<nat (num_epochs ec)] (init_state w opt0) of
             (r, s) \<Rightarrow> (r, final_world s)))"

subsection \<open>\<^verbatim>\<open>main\<close> (lines 339--430)\<close>

text \<open>
  Of \<^verbatim>\<open>main\<close> the model keeps the choice of the dataset class and the call of
  \<^verbatim>\<open>train_model\<close>.  The network that lines 360--402 build (and load, on a resumed run) is
  the parameter \<open>m\<close>; the data loaders that lines 414--428 build from the chosen class are
  \<open>mk_loaders\<close>.  A fresh process has its modules in training mode and autograd enabled.
\<close>

datatype dataset_class = CocoDataset | FlickrDataset

definition choose_dataset :: "exp_const \<Rightarrow> error + dataset_class" where
  "choose_dataset ec =
     (if dataset ec = ''coco'' then Inr CocoDataset
      else if dataset ec = ''flickr'' then Inr FlickrDataset
      else Inl NotImplementedError)"

definition main ::
  "('sd, 'o, 'b) torch \<Rightarrow> (dataset_class \<Rightarrow> 'b dataloaders) \<Rightarrow> exp_const \<Rightarrow> 'sd model \<Rightarrow>
   error option \<times> 'sd world" where
  "main T mk_loaders ec m =
     (let w = \<lparr>net = m, training = True, grad_enabled = True, trace = []\<rparr> in
      case choose_dataset ec of
        Inl e \<Rightarrow> (Some e, w)
      | Inr Dataset \<Rightarrow> train_model T (mk_loaders Dataset) ec w)"

section \<open>The object encoder (\<^verbatim>\<open>src/exp/ground/models/object_encoder.py\<close>)\<close>

subsection \<open>Floating-point values\<close>

text \<open>
  The elements of the feature tensors are floats and may be infinite or \<^verbatim>\<open>nan\<close>.  The
  operations follow IEEE 754 on these special values: \<^verbatim>\<open>nan\<close> propagates, \<open>0 * inf\<close> and
  \<open>inf - inf\<close> are \<^verbatim>\<open>nan\<close>.  On finite values they are the operations of the reals:
  rounding, overflow and the sign of zero are not modelled.  In the code below every
  product has a factor 0 or 1 and every sum a summand 0, and IEEE arithmetic is exact on
  these.
\<close>

datatype pyfloat = Finite real | PInf | NInf | NaN

fun is_finite :: "pyfloat \<Rightarrow> bool" where
  "is_finite (Finite a) = True"
| "is_finite _ = False"

fun fneg :: "pyfloat \<Rightarrow> pyfloat" where
  "fneg (Finite a) = Finite (- a)"
| "fneg PInf = NInf"
| "fneg NInf = PInf"
| "fneg NaN = NaN"

fun fmul :: "pyfloat \<Rightarrow> pyfloat \<Rightarrow> pyfloat" where
  "fmul NaN y = NaN"
| "fmul x NaN = NaN"
| "fmul (Finite a) (Finite b) = Finite (a * b)"
| "fmul (Finite a) PInf = (if a = 0 then NaN else if 0 < a then PInf else NInf)"
| "fmul (Finite a) NInf = (if a = 0 then NaN else if 0 < a then NInf else PInf)"
| "fmul PInf (Finite b) = (if b = 0 then NaN else if 0 < b then PInf else NInf)"
| "fmul NInf (Finite b) = (if b = 0 then NaN else if 0 < b then NInf else PInf)"
| "fmul PInf PInf = PInf"
| "fmul PInf NInf = NInf"
| "fmul NInf PInf = NInf"
| "fmul NInf NInf = PInf"

fun fadd :: "pyfloat \<Rightarrow> pyfloat \<Rightarrow> pyfloat" where
  "fadd NaN y = NaN"
| "fadd x NaN = NaN"
| "fadd (Finite a) (Finite b) = Finite (a + b)"
| "fadd (Finite a) PInf = PInf"
| "fadd (Finite a) NInf = NInf"
| "fadd PInf (Finite b) = PInf"
| "fadd NInf (Finite b) = NInf"
| "fadd PInf PInf = PInf"
| "fadd NInf NInf = NInf"
| "fadd PInf NInf = NaN"
| "fadd NInf PInf = NaN"

definition fsub :: "pyfloat \<Rightarrow> pyfloat \<Rightarrow> pyfloat" where
  "fsub x y = fadd x (fneg y)"

subsection \<open>Tensors\<close>

text \<open>
  A tensor is its shape and its elements, addressed by a multi-index; only indices
  inside the shape are meaningful.  Strides and contiguity are not modelled.
\<close>

record 'a tensor =
  shape :: "nat list"
  elem :: "nat list \<Rightarrow> 'a"

text \<open>Sequencing of computations that may raise.\<close>

definition bind_err :: "error + 'a \<Rightarrow> ('a \<Rightarrow> error + 'b) \<Rightarrow> error + 'b" where
  "bind_err r f = (case r of Inl e \<Rightarrow> Inl e | Inr x \<Rightarrow> f x)"

text \<open>
  Broadcasting as torch does it: the shapes are aligned at their last dimension; two
  sizes are compatible if they are equal or one of them is 1; a missing dimension counts
  as 1; anything else raises \<^verbatim>\<open>RuntimeError\<close>.  \<open>broadcast_rev\<close> works on the reversed shapes.
\<close>

fun broadcast_rev :: "nat list \<Rightarrow> nat list \<Rightarrow> error + nat list" where
  "broadcast_rev [] ys = Inr ys"
| "broadcast_rev (x # xs) [] = Inr (x # xs)"
| "broadcast_rev (x # xs) (y # ys) =
     (if x = y \<or> y = 1 then bind_err (broadcast_rev xs ys) (\<lambda>zs. Inr (x # zs))
      else if x = 1 then bind_err (broadcast_rev xs ys) (\<lambda>zs. Inr (y # zs))
      else Inl RuntimeError)"

definition broadcast_shapes :: "nat list \<Rightarrow> nat list \<Rightarrow> error + nat list" where
  "broadcast_shapes a b = bind_err (broadcast_rev (rev a) (rev b)) (\<lambda>zs. Inr (rev zs))"

text \<open>The index into an operand of shape \<open>s\<close> that belongs to the index \<open>idx\<close> of the
  broadcast result: the trailing dimensions, with 0 wherever the operand has size 1.\<close>

definition broadcast_index :: "nat list \<Rightarrow> nat list \<Rightarrow> nat list" where
  "broadcast_index s idx =
     map2 (\<lambda>d i. if d = 1 then 0 else i) s (drop (length idx - length s) idx)"

text \<open>An elementwise binary operation (\<^verbatim>\<open>*\<close>, \<^verbatim>\<open>+\<close>) with broadcasting.\<close>

definition binop ::
  "('a \<Rightarrow> 'a \<Rightarrow> 'a) \<Rightarrow> 'a tensor \<Rightarrow> 'a tensor \<Rightarrow> error + 'a tensor" where
  "binop f a b =
     bind_err (broadcast_shapes (shape a) (shape b))
       (\<lambda>sh. Inr \<lparr>shape = sh,
                   elem = (\<lambda>idx. f (elem a (broadcast_index (shape a) idx))
                                    (elem b (broadcast_index (shape b) idx)))\<rparr>)"

text \<open>\<^verbatim>\<open>c - t\<close> for a Python number \<open>c\<close>, \<^verbatim>\<open>t.float()\<close> on a boolean tensor, and
  \<^verbatim>\<open>t.unsqueeze(k)\<close> for \<open>k \<ge> 0\<close>.\<close>

definition scalar_minus :: "pyfloat \<Rightarrow> pyfloat tensor \<Rightarrow> pyfloat tensor" where
  "scalar_minus c t = \<lparr>shape = shape t, elem = (\<lambda>idx. fsub c (elem t idx))\<rparr>"

definition to_float :: "bool tensor \<Rightarrow> pyfloat tensor" where
  "to_float t = \<lparr>shape = shape t, elem = (\<lambda>idx. if elem t idx then Finite 1 else Finite 0)\<rparr>"

definition unsqueeze :: "nat \<Rightarrow> 'a tensor \<Rightarrow> error + 'a tensor" where
  "unsqueeze k t =
     (if k > length (shape t) then Inl IndexError
      else Inr \<lparr>shape = take k (shape t) @ [1] @ drop k (shape t),
                 elem = (\<lambda>idx. elem t (take k idx @ drop (Suc k) idx))\<rparr>)"

text \<open>
  \<^verbatim>\<open>t.view(*sizes)\<close>: the elements in row-major order under a new shape.  One size may be
  \<^verbatim>\<open>-1\<close> and is then inferred; torch raises \<^verbatim>\<open>RuntimeError\<close> if the sizes do not fit the
  number of elements or the inferred size is ambiguous.
\<close>

fun ravel :: "nat list \<Rightarrow> nat list \<Rightarrow> nat" where
  "ravel [] idx = 0"
| "ravel (d # ds) [] = 0"
| "ravel (d # ds) (i # is) = i * prod_list ds + ravel ds is"

fun unravel :: "nat list \<Rightarrow> nat \<Rightarrow> nat list" where
  "unravel [] n = []"
| "unravel (d # ds) n = (n div prod_list ds) # unravel ds (n mod prod_list ds)"

definition infer_shape :: "int list \<Rightarrow> nat \<Rightarrow> error + nat list" where
  "infer_shape sizes n =
     (if list_ex (\<lambda>k. k < - 1) sizes \<or> length (filter (\<lambda>k. k = - 1) sizes) > 1
      then Inl RuntimeError
      else if list_ex (\<lambda>k. k = - 1) sizes then
        (let known = prod_list (map nat (filter (\<lambda>k. k \<noteq> - 1) sizes)) in
         if known = 0 \<or> n mod known \<noteq> 0 then Inl RuntimeError
         else Inr (map (\<lambda>k. if k = - 1 then n div known else nat k) sizes))
      else if prod_list (map nat sizes) = n then Inr (map nat sizes)
      else Inl RuntimeError)"

definition view :: "int list \<Rightarrow> 'a tensor \<Rightarrow> error + 'a tensor" where
  "view sizes t =
     bind_err (infer_shape sizes (prod_list (shape t)))
       (\<lambda>sh. Inr \<lparr>shape = sh, elem = (\<lambda>idx. elem t (unravel (shape t) (ravel sh idx)))\<rparr>)"

subsection \<open>\<^verbatim>\<open>ObjectEncoder\<close> (lines 20--69)\<close>

text \<open>
  The module: the two learned embeddings \<^verbatim>\<open>pad_feat\<close> and \<^verbatim>\<open>mask_feat\<close>, and the two layers.
  The input layer (linear, batch norm, ReLU) and the context layer (\<^verbatim>\<open>ContextLayer\<close>, not
  under \<^verbatim>\<open>src/\<close>) are parameters: functions on tensors, for the weights and the mode the
  module is in.  The context layer returns a dictionary with the keys
  \<^verbatim>\<open>last_hidden_states\<close> and \<^verbatim>\<open>attention\<close>.
\<close>

record context_output =
  last_hidden_states :: "pyfloat tensor"
  attention :: "pyfloat tensor option"

record ObjectEncoder =
  input_layer :: "pyfloat tensor \<Rightarrow> pyfloat tensor"
  context_layer :: "pyfloat tensor \<Rightarrow> context_output"
  pad_feat :: "pyfloat tensor"
  mask_feat :: "pyfloat tensor"

text \<open>\<^verbatim>\<open>forward\<close> returns the context features, with the attention if there is one.\<close>

datatype forward_result =
    Features "pyfloat tensor"
  | FeaturesAttention "pyfloat tensor" "pyfloat tensor"

text \<open>
  Lines 42--44 and, with \<^verbatim>\<open>pad_mask\<close> and \<^verbatim>\<open>pad_feat\<close>, lines 47--49:
  \<^verbatim>\<open>m = mask.unsqueeze(2).float(); features = m*feat + (1-m)*features\<close>.
\<close>

definition substitute ::
  "pyfloat tensor \<Rightarrow> bool tensor \<Rightarrow> pyfloat tensor \<Rightarrow> error + pyfloat tensor" where
  "substitute feat mask_bits object_features =
     bind_err (unsqueeze 2 mask_bits) (\<lambda>m.
       let m = to_float m in
       bind_err (binop fmul m feat) (\<lambda>lhs.
         bind_err (binop fmul (scalar_minus (Finite 1) m) object_features) (\<lambda>rhs.
           binop fadd lhs rhs)))"

definition preprocess_object_features ::
  "ObjectEncoder \<Rightarrow> pyfloat tensor \<Rightarrow> bool tensor option \<Rightarrow> bool tensor option \<Rightarrow>
   error + pyfloat tensor" where
  "preprocess_object_features self object_features object_mask pad_mask =
     bind_err
       (case object_mask of
          None \<Rightarrow> Inr object_features
        | Some om \<Rightarrow> substitute (mask_feat self) om object_features)
       (\<lambda>object_features.
          case pad_mask of
            None \<Rightarrow> Inr object_features
          | Some pm \<Rightarrow> substitute (pad_feat self) pm object_features)"

text \<open>Lines 63--69: what \<^verbatim>\<open>forward\<close> returns from the output of the context layer.\<close>

definition forward_output :: "context_output \<Rightarrow> forward_result" where
  "forward_output context_layer_output =
     (case attention context_layer_output of
        Some att \<Rightarrow> FeaturesAttention (last_hidden_states context_layer_output) att
      | None \<Rightarrow> Features (last_hidden_states context_layer_output))"

text \<open>Lines 59--69: \<^verbatim>\<open>B,T,D = object_features.size()\<close> raises \<^verbatim>\<open>ValueError\<close> unless the
  tensor has three dimensions.\<close>

definition contextualize_features :: "ObjectEncoder \<Rightarrow> pyfloat tensor \<Rightarrow> error + forward_result" where
  "contextualize_features self object_features =
     (case shape object_features of
        [B, T, D] \<Rightarrow>
          bind_err (view [- 1, int D] object_features) (\<lambda>flat.
            bind_err (view [int B, int T, - 1] (input_layer self flat)) (\<lambda>transformer_input.
              Inr (forward_output (context_layer self transformer_input))))
      | _ \<Rightarrow> Inl ValueError)"

definition forward ::
  "ObjectEncoder \<Rightarrow> pyfloat tensor \<Rightarrow> bool tensor option \<Rightarrow> bool tensor option \<Rightarrow>
   error + forward_result" where
  "forward self object_features object_mask pad_mask =
     bind_err (preprocess_object_features self object_features object_mask pad_mask)
       (contextualize_features self)"

text \<open>Tensors from nested lists, as \<^verbatim>\<open>torch.tensor\<close> builds them, and a small encoder with
  features of dimension 2, for two images with three positions each.\<close>

definition of_list1 :: "'a list \<Rightarrow> 'a tensor" where
  "of_list1 xs = \<lparr>shape = [length xs], elem = (\<lambda>idx. xs ! hd idx)\<rparr>"

definition of_list2 :: "'a list list \<Rightarrow> 'a tensor" where
  "of_list2 xss =
     \<lparr>shape = [length xss, length (hd xss)], elem = (\<lambda>idx. xss ! (idx ! 0) ! (idx ! 1))\<rparr>"

definition of_list3 :: "'a list list list \<Rightarrow> 'a tensor" where
  "of_list3 xsss =
     \<lparr>shape = [length xsss, length (hd xsss), length (hd (hd xsss))],
      elem = (\<lambda>idx. xsss ! (idx ! 0) ! (idx ! 1) ! (idx ! 2))\<rparr>"

definition demo_features :: "pyfloat tensor" where
  "demo_features =
     of_list3 [ [ [Finite 1, Finite 2], [Finite 3, Finite 4], [Finite 5, Finite 6]],
                [ [Finite 7, Finite 8], [Finite 9, Finite 10], [Finite 11, Finite 12]]]"

text \<open>The same features with an infinite value at the positions \<open>(0, 0)\<close> and \<open>(0, 2)\<close>.\<close>

definition demo_inf_features :: "pyfloat tensor" where
  "demo_inf_features =
     of_list3 [ [ [PInf, Finite 2], [Finite 3, Finite 4], [PInf, Finite 6]],
                [ [Finite 7, Finite 8], [Finite 9, Finite 10], [Finite 11, Finite 12]]]"

definition demo_object_mask :: "bool tensor" where
  "demo_object_mask = of_list2 [ [True, False, True], [False, False, False]]"

definition demo_pad_mask :: "bool tensor" where
  "demo_pad_mask = of_list2 [ [False, False, True], [False, True, False]]"

definition demo_encoder :: ObjectEncoder where
  "demo_encoder =
     \<lparr>input_layer = (\<lambda>t. t),
      context_layer = (\<lambda>t. \<lparr>last_hidden_states = t, attention = None\<rparr>),
      pad_feat = of_list1 [Finite 100, Finite 200],
      mask_feat = of_list1 [Finite (- 1), Finite (- 2)]\<rparr>"

text \<open>The element at an index of a tensor that a computation returned.\<close>

definition elem_of :: "error + 'a tensor \<Rightarrow> nat list \<Rightarrow> 'a option" where
  "elem_of r idx = (case r of Inl e \<Rightarrow> None | Inr t \<Rightarrow> Some (elem t idx))"

section \<open>Auxiliary functions for stating the properties\<close>

text \<open>
  The batches that the loop of \<^verbatim>\<open>eval_model\<close> processes, given the number of samples
  already counted: the loop leaves at the first batch before which \<^verbatim>\<open>num_val_samples\<close> is
  reached.
\<close>

fun consumed :: "('sd, 'o, 'b) torch \<Rightarrow> exp_const \<Rightarrow> 'b list \<Rightarrow> nat \<Rightarrow> 'b list" where
  "consumed T ec [] n = []"
| "consumed T ec (d # ds) n =
     (if (case num_val_samples ec of None \<Rightarrow> False | Some k \<Rightarrow> int n \<ge> k) then []
      else d # consumed T ec ds (n + batch_size T d))"

text \<open>The result of \<^verbatim>\<open>eval_model\<close> on a model with weights \<open>m\<close>; it does not depend on
  the rest of the state (lemma \<open>eval_model_eq\<close>).\<close>

definition eval_value ::
  "('sd, 'o, 'b) torch \<Rightarrow> exp_const \<Rightarrow> 'b list \<Rightarrow> 'sd model \<Rightarrow> error + eval_results" where
  "eval_value T ec ds m =
     fst (eval_model T ec ds \<lparr>net = m, training = True, grad_enabled = True, trace = []\<rparr>)"

text \<open>The effects that a computation from \<open>s\<close> to \<open>s'\<close> has added to the log.\<close>

definition new_events :: "('sd, 'y) world_scheme \<Rightarrow> ('sd, 'z) world_scheme \<Rightarrow> 'sd event list" where
  "new_events s s' = drop (length (trace s)) (trace s')"

text \<open>The effects of the blocks of one iteration, as functions of the state in which the
  block starts.\<close>

definition log_events ::
  "exp_const \<Rightarrow> real \<times> real \<times> real \<times> real \<Rightarrow> int \<Rightarrow> 'sd event list" where
  "log_events ec ls st =
     (if st mod log_step ec = 0
      then map (\<lambda>(name, v). AddScalar name v st) (train_log_items ec ls) else [])"

definition save_events :: "exp_const \<Rightarrow> ('sd, 'o) tstate \<Rightarrow> 'sd event list" where
  "save_events ec s =
     (if step s mod model_save_step ec = 0 then periodic_checkpoints ec s else [])"

definition val_events ::
  "('sd, 'o, 'b) torch \<Rightarrow> exp_const \<Rightarrow> 'b dataloaders \<Rightarrow> ('sd, 'o) tstate \<Rightarrow> 'sd event list" where
  "val_events T ec dl s =
     (if val_step ec = 0 \<or> step s mod val_step ec \<noteq> 0 then []
      else
        SetTraining False #
        replicate (length (consumed T ec (val dl (step s)) 0)) (Forward False False) @
        (case eval_value T ec (val dl (step s)) (net s) of
           Inl e \<Rightarrow> []
         | Inr res \<Rightarrow>
             map (\<lambda>(name, v). AddScalar name v (step s)) (val_log_items res) @
             (if total_loss res < best_val_loss s
              then best_checkpoints ec (total_loss res) s else [])))"

text \<open>The combined loss of an iteration and all effects of the iteration.\<close>

definition step_loss :: "('sd, 'o, 'b) torch \<Rightarrow> exp_const \<Rightarrow> 'b \<Rightarrow> ('sd, 'o) tstate \<Rightarrow> real" where
  "step_loss T ec data s = snd (snd (snd (fst (forward_backward T ec data s))))"

definition step_events ::
  "('sd, 'o, 'b) torch \<Rightarrow> exp_const \<Rightarrow> 'b dataloaders \<Rightarrow> 'b \<Rightarrow> ('sd, 'o) tstate \<Rightarrow> 'sd event list" where
  "step_events T ec dl data s =
     (case forward_backward T ec data s of
        (ls, s1) \<Rightarrow>
          [SetTraining True, Forward True (grad_enabled s), ZeroGrad,
           Backward (snd (snd (snd ls))), OptStep] @
          (if log_step ec = 0 then []
           else log_events ec ls (step s) @
             (if model_save_step ec = 0 then []
              else save_events ec s1 @ val_events T ec dl s1)))"

text \<open>The losses on which \<^verbatim>\<open>backward()\<close> was called, in order.\<close>

fun backward_of :: "'sd event \<Rightarrow> real list" where
  "backward_of (Backward l) = [l]"
| "backward_of _ = []"

definition backward_passes :: "'sd event list \<Rightarrow> real list" where
  "backward_passes tr = concat (map backward_of tr)"

text \<open>
  What a \<^verbatim>\<open>torch.save\<close> recorded under the key \<^verbatim>\<open>val_loss\<close>.  A periodic checkpoint
  records \<^verbatim>\<open>None\<close> there, a best checkpoint the validation loss.
\<close>

fun saved_val_loss :: "'sd event \<Rightarrow> 'sd pyval option" where
  "saved_val_loss (Save p ck) = map_of ck ''val_loss''"
| "saved_val_loss _ = None"

definition best_loss_of :: "'sd event \<Rightarrow> real list" where
  "best_loss_of e = (case saved_val_loss e of Some (FloatV v) \<Rightarrow> [v] | _ \<Rightarrow> [])"

definition saved_best_losses :: "'sd event list \<Rightarrow> real list" where
  "saved_best_losses tr = concat (map best_loss_of tr)"

definition is_periodic_save :: "'sd event \<Rightarrow> bool" where
  "is_periodic_save e = (saved_val_loss e = Some NoneV)"

definition is_best_save :: "'sd event \<Rightarrow> bool" where
  "is_best_save e = (best_loss_of e \<noteq> [])"

text \<open>
  A small concrete run, used to instantiate the theorems: batches are pairs of a number
  and a batch size, weights are natural numbers, each optimizer step adds one to the
  weights of the object encoder, and the self-supervised loss of a batch is its number
  divided by one plus that weight.
\<close>

definition demo_torch :: "(nat, nat, real \<times> nat) torch" where
  "demo_torch =
     \<lparr>batch_size = snd,
      losses = (\<lambda>ec tr m d. (fst d / real (Suc (object_encoder m)), 1, 0)),
      optim_SGD = (\<lambda>ps l mo. 0),
      optim_Adam = (\<lambda>ps l. 0),
      backward_step = (\<lambda>ob m d l. (Suc ob, m\<lparr>object_encoder := Suc (object_encoder m)\<rparr>))\<rparr>"

definition demo_const :: exp_const where
  "demo_const =
     \<lparr>exp_name = ''demo'', model_dir = ''models'', optimizer = ''SGD'', dataset = ''coco'',
      lr = 1 / 10, momentum = 9 / 10, num_epochs = 1, log_step = 1, model_save_step = 2,
      val_step = 1, num_val_samples = Some 3,
      self_sup_loss_wt = 1, lang_sup_loss_wt = 2, neg_noun_loss_wt = 3,
      random_lang = False, contextualize = True\<rparr>"

definition demo_loaders :: "(real \<times> nat) dataloaders" where
  "demo_loaders = \<lparr>train = (\<lambda>epoch. [(1, 2), (2, 2)]), val = (\<lambda>st. [(4, 2), (2, 1), (7, 5)])\<rparr>"

definition demo_world :: "nat world" where
  "demo_world =
     \<lparr>net = \<lparr>object_encoder = 0, self_sup_criterion = 10, lang_sup_criterion = 20,
             cap_encoder = 30, model_num = - 1\<rparr>,
      training = True, grad_enabled = True, trace = []\<rparr>"

text \<open>The state in which the first iteration of the demo run starts.\<close>

definition demo_state :: "(nat, nat) tstate" where
  "demo_state = init_state demo_world 0"

text \<open>
  The history of validation in an effect log: the total validation losses in the order in
  which they were computed, each with the step of its validation pass.  They are read
  from the scalar \<^verbatim>\<open>Loss/Val\<close>, which the loop writes after every validation pass with the
  value \<^verbatim>\<open>eval_results['total_loss']\<close> (lines 210--217).
\<close>

fun val_logged :: "'sd event \<Rightarrow> (real \<times> int) list" where
  "val_logged (AddScalar name v st) = (if name = ''Loss/Val'' then [(v, st)] else [])"
| "val_logged _ = []"

definition val_history :: "'sd event list \<Rightarrow> (real \<times> int) list" where
  "val_history tr = concat (map val_logged tr)"

text \<open>
  The steps recorded in the periodic checkpoint files of an effect log (the checkpoints
  whose \<^verbatim>\<open>val_loss\<close> is \<^verbatim>\<open>None\<close>), and the validation loss and step recorded in the best
  checkpoint files (those with a validation loss), one entry per file written, in order.
\<close>

fun periodic_step_of :: "'sd event \<Rightarrow> int list" where
  "periodic_step_of (Save p ck) =
     (case map_of ck ''val_loss'' of
        Some NoneV \<Rightarrow> (case map_of ck ''step'' of Some (IntV st) \<Rightarrow> [st] | _ \<Rightarrow> [])
      | _ \<Rightarrow> [])"
| "periodic_step_of _ = []"

definition periodic_steps :: "'sd event list \<Rightarrow> int list" where
  "periodic_steps tr = concat (map periodic_step_of tr)"

fun best_record_of :: "'sd event \<Rightarrow> (real \<times> int) list" where
  "best_record_of (Save p ck) =
     (case map_of ck ''val_loss'' of
        Some (FloatV v) \<Rightarrow> (case map_of ck ''step'' of Some (IntV st) \<Rightarrow> [(v, st)] | _ \<Rightarrow> [])
      | _ \<Rightarrow> [])"
| "best_record_of _ = []"

definition best_records :: "'sd event list \<Rightarrow> (real \<times> int) list" where
  "best_records tr = concat (map best_record_of tr)"

text \<open>
  The entries of a validation history whose loss is strictly less than every loss before
  it and than the initial value \<open>best\<close>: the validation improvements.
\<close>

fun improvements :: "real \<Rightarrow> (real \<times> int) list \<Rightarrow> (real \<times> int) list" where
  "improvements best [] = []"
| "improvements best ((v, st) # rest) =
     (if v < best then [(v, st)] else []) @ improvements (min best v) rest"

text \<open>The number of files that one save writes (lines 183--189 and 222--228), and the steps
  \<open>start, start + 1, \<dots>\<close> of \<open>n\<close> consecutive iterations.\<close>

definition files_per_save :: "exp_const \<Rightarrow> nat" where
  "files_per_save ec = (if random_lang ec then 4 else 3)"

definition steps_from :: "int \<Rightarrow> nat \<Rightarrow> int list" where
  "steps_from start n = map (\<lambda>i. start + int i) [0..<n]"

text \<open>
  The invariant of the training loop behind the schedule of checkpoints: \<open>evs\<close> are the
  effects since the loop started at step \<open>start\<close>, with one backward pass per iteration.
\<close>

definition schedule_ok :: "exp_const \<Rightarrow> int \<Rightarrow> 'sd event list \<Rightarrow> bool" where
  "schedule_ok ec start evs \<longleftrightarrow>
     (log_step ec \<noteq> 0 \<and> model_save_step ec \<noteq> 0 \<longrightarrow>
        periodic_steps evs =
          concat (map (replicate (files_per_save ec))
            (filter (\<lambda>st. st mod model_save_step ec = 0)
               (steps_from start (length (backward_passes evs)))))) \<and>
     best_records evs =
       concat (map (replicate (files_per_save ec)) (improvements 10000 (val_history evs)))"

definition loop_inv ::
  "exp_const \<Rightarrow> int \<Rightarrow> 'sd event list \<Rightarrow> ('sd, 'o) tstate \<Rightarrow> bool" where
  "loop_inv ec start tr0 s \<longleftrightarrow>
     (\<exists>evs. trace s = tr0 @ evs \<and> schedule_ok ec start evs \<and>
        step s = start + int (length (backward_passes evs)) \<and>
        best_val_loss s = foldl min 10000 (map fst (val_history evs)) \<and>
        map snd (val_history evs) =
          filter (\<lambda>st. st mod val_step ec = 0)
            (steps_from start (length (backward_passes evs))))"

definition loop_post ::
  "exp_const \<Rightarrow> int \<Rightarrow> 'sd event list \<Rightarrow> error option \<times> ('sd, 'o) tstate \<Rightarrow> bool" where
  "loop_post ec start tr0 r \<longleftrightarrow>
     (\<exists>evs. trace (snd r) = tr0 @ evs \<and> schedule_ok ec start evs \<and>
        (fst r \<noteq> None \<longrightarrow>
           map snd (val_history evs) =
             filter (\<lambda>st. st mod val_step ec = 0)
               (butlast (steps_from start (length (backward_passes evs)))))) \<and>
     (fst r = None \<longrightarrow> loop_inv ec start tr0 (snd r))"

section \<open>Basic facts about the blocks of an iteration\<close>

lemma emit_simps [simp]:
  "trace (emit evs s) = trace s @ evs"
  "net (emit evs s) = net s"
  "training (emit evs s) = training s"
  "grad_enabled (emit evs s) = grad_enabled s"
  "world.more (emit evs s) = world.more s"
  by (simp_all add: emit_def)

lemma emit_tstate_simps [simp]:
  "step (emit evs s) = step s"
  "opt (emit evs s) = opt s"
  "best_val_loss (emit evs s) = best_val_loss s"
  by (simp_all add: emit_def)

lemma emit_emit [simp]: "emit ys (emit xs s) = emit (xs @ ys) s"
  by (simp add: emit_def)

lemma emit_Nil [simp]: "emit [] s = s"
  by (simp add: emit_def)

lemma new_events_emit [simp]: "new_events s (emit evs s) = evs"
  by (simp add: new_events_def)

lemma new_events_self [simp]: "new_events s s = []"
  by (simp add: new_events_def)

lemma eval_batches_eq:
  "eval_batches T ec ds a b c n s =
     ((a + (\<Sum>d\<leftarrow>consumed T ec ds n. fst (losses T ec (training s) (net s) d) * real (batch_size T d)),
       b + (\<Sum>d\<leftarrow>consumed T ec ds n. fst (snd (losses T ec (training s) (net s) d)) * real (batch_size T d)),
       c + (\<Sum>d\<leftarrow>consumed T ec ds n. snd (snd (losses T ec (training s) (net s) d)) * real (batch_size T d)),
       n + (\<Sum>d\<leftarrow>consumed T ec ds n. batch_size T d)),
      emit (replicate (length (consumed T ec ds n)) (Forward (training s) (grad_enabled s))) s)"
proof (induction ds arbitrary: a b c n s)
  case Nil
  show ?case by simp
next
  case (Cons d ds)
  show ?case
    by (simp add: Cons.IH split: prod.splits option.splits add: replicate_append_same algebra_simps)
qed

lemma eval_model_eq:
  "eval_model T ec ds s =
     (eval_value T ec ds (net s),
      emit (SetTraining False # replicate (length (consumed T ec ds 0)) (Forward False (grad_enabled s)))
        (s\<lparr>training := False\<rparr>))"
  by (simp add: eval_value_def eval_model_def eval_batches_eq set_mode_def split: prod.splits)

lemma no_grad_eval_model:
  "no_grad (eval_model T ec ds) s =
     (eval_value T ec ds (net s),
      emit (SetTraining False # replicate (length (consumed T ec ds 0)) (Forward False False))
        (s\<lparr>training := False\<rparr>))"
  apply (simp add: no_grad_def split: prod.splits)
  apply (subst eval_model_eq)
  apply (simp add: emit_def)
  done

lemma log_block_eq:
  "log_block ec ls s =
     (if log_step ec = 0 then (Some ZeroDivisionError, s)
      else (None, emit (log_events ec ls (step s)) s))"
  by (simp add: log_block_def when_step_def log_events_def add_scalars_def)

lemma print_block_eq:
  "print_block ec s = (if log_step ec = 0 then Some ZeroDivisionError else None, s)"
  by (simp add: print_block_def when_step_def)

lemma save_block_eq:
  "save_block ec s =
     (if model_save_step ec = 0 then (Some ZeroDivisionError, s)
      else (None, emit (save_events ec s) s))"
  by (simp add: save_block_def when_step_def save_events_def)

lemma val_block_eq:
  "val_block T ec dl s =
     (if val_step ec = 0 then (Some ZeroDivisionError, s)
      else if step s mod val_step ec \<noteq> 0 then (None, s)
      else
        (case eval_value T ec (val dl (step s)) (net s) of
           Inl e \<Rightarrow> (Some e, emit (val_events T ec dl s) (s\<lparr>training := False\<rparr>))
         | Inr res \<Rightarrow>
             (None, (emit (val_events T ec dl s) (s\<lparr>training := False\<rparr>))
                \<lparr>best_val_loss := min (total_loss res) (best_val_loss s)\<rparr>)))"
  by (simp add: val_block_def when_step_def no_grad_eval_model val_events_def save_best_def
      add_scalars_def best_checkpoints_def emit_def min_def split: sum.splits)

lemma periodic_checkpoints_cong:
  "step s = step s' \<Longrightarrow> best_val_loss s = best_val_loss s' \<Longrightarrow> net s = net s' \<Longrightarrow>
   periodic_checkpoints ec s = periodic_checkpoints ec s'"
  by (simp add: periodic_checkpoints_def)

lemma best_checkpoints_cong:
  "step s = step s' \<Longrightarrow> best_val_loss s = best_val_loss s' \<Longrightarrow> net s = net s' \<Longrightarrow>
   best_checkpoints ec v s = best_checkpoints ec v s'"
  by (simp add: best_checkpoints_def)

lemma save_events_cong:
  "step s = step s' \<Longrightarrow> best_val_loss s = best_val_loss s' \<Longrightarrow> net s = net s' \<Longrightarrow>
   save_events ec s = save_events ec s'"
  by (simp add: save_events_def periodic_checkpoints_def)

lemma val_events_cong:
  "step s = step s' \<Longrightarrow> best_val_loss s = best_val_loss s' \<Longrightarrow> net s = net s' \<Longrightarrow>
   val_events T ec dl s = val_events T ec dl s'"
  by (simp add: val_events_def best_checkpoints_def split: sum.splits)

lemma save_events_emit [simp]: "save_events ec (emit evs s) = save_events ec s"
  by (rule save_events_cong) simp_all

lemma val_events_emit [simp]: "val_events T ec dl (emit evs s) = val_events T ec dl s"
  by (rule val_events_cong) simp_all

lemma forward_backward_eq:
  "forward_backward T ec data s =
     (fst (forward_backward T ec data s),
      emit [SetTraining True, Forward True (grad_enabled s), ZeroGrad,
            Backward (step_loss T ec data s), OptStep]
        (s\<lparr>net := snd (backward_step T (opt s) (net s) data (step_loss T ec data s)),
           training := True,
           opt := fst (backward_step T (opt s) (net s) data (step_loss T ec data s))\<rparr>))"
  by (simp add: forward_backward_def step_loss_def set_mode_def Let_def emit_def
      split: prod.splits)

lemma forward_backward_fields [simp]:
  "step (snd (forward_backward T ec data s)) = step s"
  "best_val_loss (snd (forward_backward T ec data s)) = best_val_loss s"
  "grad_enabled (snd (forward_backward T ec data s)) = grad_enabled s"
  "trace (snd (forward_backward T ec data s)) =
     trace s @ [SetTraining True, Forward True (grad_enabled s), ZeroGrad,
                Backward (step_loss T ec data s), OptStep]"
  by (simp_all add: forward_backward_def step_loss_def set_mode_def Let_def split: prod.splits)

lemma val_block_fields:
  "trace (snd (val_block T ec dl s)) = trace s @ val_events T ec dl s"
  "step (snd (val_block T ec dl s)) = step s"
  "grad_enabled (snd (val_block T ec dl s)) = grad_enabled s"
  "net (snd (val_block T ec dl s)) = net s"
  by (simp_all add: val_block_eq val_events_def split: sum.splits)

lemma seq_snd:
  "snd (seq f g s) = (case fst (f s) of Some e \<Rightarrow> snd (f s) | None \<Rightarrow> snd (g (snd (f s))))"
  by (simp add: seq_def split: prod.splits option.splits)

lemma seq_fst:
  "fst (seq f g s) = (case fst (f s) of Some e \<Rightarrow> Some e | None \<Rightarrow> fst (g (snd (f s))))"
  by (simp add: seq_def split: prod.splits option.splits)

lemma incr_step_simps [simp]:
  "fst (incr_step s) = None"
  "trace (snd (incr_step s)) = trace s"
  "step (snd (incr_step s)) = step s + 1"
  "best_val_loss (snd (incr_step s)) = best_val_loss s"
  "grad_enabled (snd (incr_step s)) = grad_enabled s"
  "net (snd (incr_step s)) = net s"
  by (simp_all add: incr_step_def)

lemma val_block_trace [simp]:
  "trace (snd (val_block T ec dl s)) = trace s @ val_events T ec dl s"
  by (simp add: val_block_eq val_events_def split: sum.splits)

lemma blocks_eq:
  "seq (log_block ec ls)
     (seq (print_block ec) (seq (save_block ec) (seq (val_block T ec dl) incr_step))) s1 =
   (if log_step ec = 0 then (Some ZeroDivisionError, s1)
    else if model_save_step ec = 0
      then (Some ZeroDivisionError, emit (log_events ec ls (step s1)) s1)
    else
      (case val_block T ec dl (emit (log_events ec ls (step s1) @ save_events ec s1) s1) of
         (Some e, s4) \<Rightarrow> (Some e, s4)
       | (None, s4) \<Rightarrow> (None, s4\<lparr>step := step s4 + 1\<rparr>)))"
  by (simp add: seq_def log_block_eq print_block_eq save_block_eq incr_step_def
      split: prod.splits option.splits)

lemma blocks_trace:
  "trace (snd (seq (log_block ec ls)
     (seq (print_block ec) (seq (save_block ec) (seq (val_block T ec dl) incr_step))) s1)) =
   trace s1 @
   (if log_step ec = 0 then []
    else log_events ec ls (step s1) @
      (if model_save_step ec = 0 then []
       else save_events ec s1 @ val_events T ec dl s1))"
proof -
  let ?s3 = "emit (log_events ec ls (step s1) @ save_events ec s1) s1"
  have "trace (snd (case val_block T ec dl ?s3 of
         (Some e, s4) \<Rightarrow> (Some e, s4)
       | (None, s4) \<Rightarrow> (None, s4\<lparr>step := step s4 + 1\<rparr>))) = trace (snd (val_block T ec dl ?s3))"
    by (simp add: case_prod_beta split: option.splits)
  then show ?thesis
    by (simp add: blocks_eq)
qed

lemma train_step_trace:
  "trace (snd (train_step T ec dl data s)) = trace s @ step_events T ec dl data s"
  by (simp add: train_step_def step_events_def case_prod_beta blocks_trace step_loss_def)

lemma blocks_best:
  "best_val_loss (snd (seq (log_block ec ls)
     (seq (print_block ec) (seq (save_block ec) (seq (val_block T ec dl) incr_step))) s1)) =
   (if log_step ec = 0 \<or> model_save_step ec = 0 \<or> val_step ec = 0 \<or>
       step s1 mod val_step ec \<noteq> 0 then best_val_loss s1
    else (case eval_value T ec (val dl (step s1)) (net s1) of
            Inl e \<Rightarrow> best_val_loss s1
          | Inr res \<Rightarrow> min (total_loss res) (best_val_loss s1)))"
  by (simp add: blocks_eq val_block_eq split: sum.splits)

lemma blocks_fst:
  "fst (seq (log_block ec ls)
     (seq (print_block ec) (seq (save_block ec) (seq (val_block T ec dl) incr_step))) s1) =
   (if log_step ec = 0 \<or> model_save_step ec = 0 \<or> val_step ec = 0
    then Some ZeroDivisionError
    else if step s1 mod val_step ec \<noteq> 0 then None
    else (case eval_value T ec (val dl (step s1)) (net s1) of
            Inl e \<Rightarrow> Some e
          | Inr res \<Rightarrow> None))"
  by (simp add: blocks_eq val_block_eq split: sum.splits)

lemma blocks_grad:
  "grad_enabled (snd (seq (log_block ec ls)
     (seq (print_block ec) (seq (save_block ec) (seq (val_block T ec dl) incr_step))) s1)) =
   grad_enabled s1"
  by (simp add: blocks_eq val_block_eq split: sum.splits)

lemma blocks_net:
  "net (snd (seq (log_block ec ls)
     (seq (print_block ec) (seq (save_block ec) (seq (val_block T ec dl) incr_step))) s1)) =
   net s1"
  by (simp add: blocks_eq val_block_eq split: sum.splits)

lemma blocks_step:
  "step (snd (seq (log_block ec ls)
     (seq (print_block ec) (seq (save_block ec) (seq (val_block T ec dl) incr_step))) s1)) =
   (if fst (seq (log_block ec ls)
     (seq (print_block ec) (seq (save_block ec) (seq (val_block T ec dl) incr_step))) s1) = None
    then step s1 + 1 else step s1)"
  by (simp add: blocks_eq val_block_eq split: sum.splits)

lemma train_step_best:
  "best_val_loss (snd (train_step T ec dl data s)) =
   (if log_step ec = 0 \<or> model_save_step ec = 0 \<or> val_step ec = 0 \<or>
       step s mod val_step ec \<noteq> 0 then best_val_loss s
    else (case eval_value T ec (val dl (step s)) (net (snd (forward_backward T ec data s))) of
            Inl e \<Rightarrow> best_val_loss s
          | Inr res \<Rightarrow> min (total_loss res) (best_val_loss s)))"
  by (simp add: train_step_def case_prod_beta blocks_best split: sum.splits)

lemma train_step_fst:
  "fst (train_step T ec dl data s) =
   (if log_step ec = 0 \<or> model_save_step ec = 0 \<or> val_step ec = 0
    then Some ZeroDivisionError
    else if step s mod val_step ec \<noteq> 0 then None
    else (case eval_value T ec (val dl (step s)) (net (snd (forward_backward T ec data s))) of
            Inl e \<Rightarrow> Some e
          | Inr res \<Rightarrow> None))"
  by (simp add: train_step_def case_prod_beta blocks_fst)

lemma train_step_grad [simp]:
  "grad_enabled (snd (train_step T ec dl data s)) = grad_enabled s"
  by (simp add: train_step_def case_prod_beta blocks_grad)

lemma train_step_net:
  "net (snd (train_step T ec dl data s)) = net (snd (forward_backward T ec data s))"
  by (simp add: train_step_def case_prod_beta blocks_net)

lemma train_step_step:
  "step (snd (train_step T ec dl data s)) =
     (if fst (train_step T ec dl data s) = None then step s + 1 else step s)"
  by (simp add: train_step_def case_prod_beta blocks_step)

lemma eval_value_error: "eval_value T ec ds m = Inl e \<Longrightarrow> e = ZeroDivisionError"
  by (auto simp: eval_value_def eval_model_def split: prod.splits if_splits)

lemma train_batches_inv:
  assumes "\<And>data s. I s \<Longrightarrow> I (snd (train_step T ec dl data s))" and "I s"
  shows "I (snd (train_batches T ec dl ds s))"
  using assms(2)
proof (induction ds arbitrary: s)
  case Nil
  then show ?case by simp
next
  case (Cons d ds)
  then show ?case
    by (simp add: seq_snd assms(1) split: option.splits)
qed

lemma train_epochs_inv:
  assumes "\<And>data s. I s \<Longrightarrow> I (snd (train_step T ec dl data s))" and "I s"
  shows "I (snd (train_epochs T ec dl es s))"
  using assms(2)
proof (induction es arbitrary: s)
  case Nil
  then show ?case by simp
next
  case (Cons e es)
  then show ?case
    by (simp add: seq_snd train_batches_inv [where I = I, OF assms(1)] split: option.splits)
qed

lemma train_model_inv:
  assumes "\<And>data s. I (trace s) (best_val_loss s) \<Longrightarrow>
             I (trace (snd (train_step T ec dl data s)))
               (best_val_loss (snd (train_step T ec dl data s)))"
    and "\<And>b. I (trace w) b"
  shows "\<exists>b. I (trace (snd (train_model T dl ec w))) b"
proof (cases "create_optimizer T ec (net w)")
  case (Inl e)
  then show ?thesis
    using assms(2) by (simp add: train_model_def)
next
  case (Inr opt0)
  let ?s = "snd (train_epochs T ec dl [0..<nat (num_epochs ec)] (init_state w opt0))"
  have "I (trace (init_state w opt0)) (best_val_loss (init_state w opt0))"
    using assms(2) by (simp add: init_state_def)
  then have "I (trace ?s) (best_val_loss ?s)"
    using train_epochs_inv [where I = "\<lambda>s. I (trace s) (best_val_loss s)" and T = T
        and ec = ec and dl = dl and s = "init_state w opt0"] assms(1)
    by blast
  then show ?thesis
    using Inr by (auto simp: train_model_def final_world_def split: prod.splits)
qed

section \<open>Projections of the effect log\<close>

lemma backward_passes_simps [simp]:
  "backward_passes [] = []"
  "backward_passes (e # tr) = backward_of e @ backward_passes tr"
  "backward_passes (tr @ tr') = backward_passes tr @ backward_passes tr'"
  by (simp_all add: backward_passes_def)

lemma saved_best_losses_simps [simp]:
  "saved_best_losses [] = []"
  "saved_best_losses (e # tr) = best_loss_of e @ saved_best_losses tr"
  "saved_best_losses (tr @ tr') = saved_best_losses tr @ saved_best_losses tr'"
  by (simp_all add: saved_best_losses_def)

lemma best_loss_of_simps [simp]:
  "best_loss_of (SetTraining b) = []"
  "best_loss_of (Forward b g) = []"
  "best_loss_of ZeroGrad = []"
  "best_loss_of (Backward l) = []"
  "best_loss_of OptStep = []"
  "best_loss_of (AddScalar n v st) = []"
  by (simp_all add: best_loss_of_def)

lemma backward_passes_replicate_Forward [simp]:
  "backward_passes (replicate n (Forward a b)) = []"
  by (induction n) simp_all

lemma saved_best_losses_replicate_Forward [simp]:
  "saved_best_losses (replicate n (Forward a b)) = []"
  by (induction n) simp_all

lemma backward_passes_scalars [simp]:
  "backward_passes (map (\<lambda>(name, v). AddScalar name v st) items) = []"
  by (induction items) auto

lemma saved_best_losses_scalars [simp]:
  "saved_best_losses (map (\<lambda>(name, v). AddScalar name v st) items) = []"
  by (induction items) auto

lemma backward_passes_periodic [simp]: "backward_passes (periodic_checkpoints ec s) = []"
  by (simp add: periodic_checkpoints_def save_items_def)

lemma backward_passes_best [simp]: "backward_passes (best_checkpoints ec v s) = []"
  by (simp add: best_checkpoints_def best_save_items_def)

lemma saved_best_losses_periodic [simp]: "saved_best_losses (periodic_checkpoints ec s) = []"
  by (simp add: periodic_checkpoints_def save_items_def best_loss_of_def)

lemma saved_best_losses_best [simp]:
  "saved_best_losses (best_checkpoints ec v s) = replicate (length (best_save_items ec (net s))) v"
  by (simp add: best_checkpoints_def best_save_items_def best_loss_of_def)

lemma backward_passes_log_events [simp]: "backward_passes (log_events ec ls st) = []"
  by (simp add: log_events_def)

lemma backward_passes_save_events [simp]: "backward_passes (save_events ec s) = []"
  by (simp add: save_events_def)

lemma backward_passes_val_events [simp]: "backward_passes (val_events T ec dl s) = []"
  by (simp add: val_events_def split: sum.splits)

lemma new_events_train_step:
  "new_events s (snd (train_step T ec dl data s)) = step_events T ec dl data s"
  by (simp add: new_events_def train_step_trace)


section \<open>One backward pass per iteration\<close>


section \<open>The best validation loss never increases\<close>

lemma saved_best_losses_log_events [simp]: "saved_best_losses (log_events ec ls st) = []"
  by (simp add: log_events_def)

lemma saved_best_losses_save_events [simp]: "saved_best_losses (save_events ec s) = []"
  by (simp add: save_events_def)

lemma saved_best_losses_val_events:
  "saved_best_losses (val_events T ec dl s) =
     (if val_step ec \<noteq> 0 \<and> step s mod val_step ec = 0 then
        (case eval_value T ec (val dl (step s)) (net s) of
           Inl e \<Rightarrow> []
         | Inr res \<Rightarrow>
             if total_loss res < best_val_loss s
             then replicate (length (best_save_items ec (net s))) (total_loss res) else [])
      else [])"
  by (simp add: val_events_def split: sum.splits)

lemma train_step_best_le:
  "best_val_loss (snd (train_step T ec dl data s)) \<le> best_val_loss s"
  by (simp add: train_step_best split: sum.splits)

lemma step_events_best_losses:
  "\<exists>k. saved_best_losses (step_events T ec dl data s) =
        replicate k (best_val_loss (snd (train_step T ec dl data s)))"
proof -
  let ?s1 = "snd (forward_backward T ec data s)"
  show ?thesis
  proof (cases "log_step ec = 0 \<or> model_save_step ec = 0")
    case True
    then have "saved_best_losses (step_events T ec dl data s) = []"
      by (auto simp: step_events_def case_prod_beta)
    then show ?thesis by (intro exI [of _ 0]) simp
  next
    case False
    then have eq: "saved_best_losses (step_events T ec dl data s) =
        saved_best_losses (val_events T ec dl ?s1)"
      by (simp add: step_events_def case_prod_beta)
    show ?thesis
    proof (cases "val_step ec \<noteq> 0 \<and> step s mod val_step ec = 0")
      case False
      then have "saved_best_losses (val_events T ec dl ?s1) = []"
        by (auto simp: saved_best_losses_val_events)
      with eq show ?thesis by (intro exI [of _ 0]) simp
    next
      case due: True
      show ?thesis
      proof (cases "eval_value T ec (val dl (step s)) (net ?s1)")
        case (Inl e)
        with due have "saved_best_losses (val_events T ec dl ?s1) = []"
          by (simp add: saved_best_losses_val_events)
        with eq show ?thesis by (intro exI [of _ 0]) simp
      next
        case (Inr res)
        show ?thesis
        proof (cases "total_loss res < best_val_loss s")
          case True
          with due Inr \<open>\<not> (log_step ec = 0 \<or> model_save_step ec = 0)\<close>
          have "best_val_loss (snd (train_step T ec dl data s)) = total_loss res"
            by (simp add: train_step_best)
          moreover from True due Inr
          have "saved_best_losses (val_events T ec dl ?s1) =
              replicate (length (best_save_items ec (net ?s1))) (total_loss res)"
            by (simp add: saved_best_losses_val_events)
          ultimately show ?thesis using eq by auto
        next
          case False
          with due Inr have "saved_best_losses (val_events T ec dl ?s1) = []"
            by (simp add: saved_best_losses_val_events)
          with eq show ?thesis by (intro exI [of _ 0]) simp
        qed
      qed
    qed
  qed
qed

lemma sorted_wrt_append_replicate:
  fixes xs :: "real list"
  assumes "sorted_wrt (\<lambda>earlier later. later \<le> earlier) xs" and "\<forall>x\<in>set xs. b \<le> x"
  shows "sorted_wrt (\<lambda>earlier later. later \<le> earlier) (xs @ replicate k b)"
proof -
  have "sorted_wrt (\<lambda>earlier later. later \<le> earlier) (replicate k b)"
    by (induction k) simp_all
  with assms show ?thesis
    by (auto simp: sorted_wrt_append)
qed

lemma best_inv_step:
  assumes "trace s = tr0 @ evs"
    and "sorted_wrt (\<lambda>earlier later. later \<le> earlier) (saved_best_losses evs)"
    and "\<forall>v\<in>set (saved_best_losses evs). best_val_loss s \<le> v"
  shows "\<exists>evs'. trace (snd (train_step T ec dl data s)) = tr0 @ evs' \<and>
      sorted_wrt (\<lambda>earlier later. later \<le> earlier) (saved_best_losses evs') \<and>
      (\<forall>v\<in>set (saved_best_losses evs'). best_val_loss (snd (train_step T ec dl data s)) \<le> v)"
proof -
  let ?b' = "best_val_loss (snd (train_step T ec dl data s))"
  obtain k where k: "saved_best_losses (step_events T ec dl data s) = replicate k ?b'"
    using step_events_best_losses [of T ec dl data s] by blast
  have le: "?b' \<le> best_val_loss s"
    by (rule train_step_best_le)
  have lower: "\<forall>v\<in>set (saved_best_losses evs). ?b' \<le> v"
    using assms(3) le by auto
  have "trace (snd (train_step T ec dl data s)) = tr0 @ (evs @ step_events T ec dl data s)"
    by (simp add: train_step_trace assms(1))
  moreover have "sorted_wrt (\<lambda>earlier later. later \<le> earlier)
      (saved_best_losses (evs @ step_events T ec dl data s))"
    using sorted_wrt_append_replicate [OF assms(2) lower] k by simp
  moreover have "\<forall>v\<in>set (saved_best_losses (evs @ step_events T ec dl data s)). ?b' \<le> v"
    using lower k by auto
  ultimately show ?thesis by blast
qed

text \<open>
  Claim C1.  Take the checkpoints that one run of \<^verbatim>\<open>train_model\<close> writes with a
  validation loss (the best checkpoints), in the order in which they are written.  Each of
  them records a \<^verbatim>\<open>val_loss\<close> that is no greater than the \<^verbatim>\<open>val_loss\<close> of every best
  checkpoint written before it in that run, whether the run returns or raises.
\<close>

theorem C1_best_val_loss_monotone:
  "sorted_wrt (\<lambda>earlier later. later \<le> earlier)
     (saved_best_losses (new_events w (snd (train_model T dl ec w))))"
proof -
  let ?I = "\<lambda>tr b. \<exists>evs. tr = trace w @ evs \<and>
      sorted_wrt (\<lambda>earlier later. later \<le> earlier) (saved_best_losses evs) \<and>
      (\<forall>v\<in>set (saved_best_losses evs). b \<le> v)"
  have "\<exists>b. ?I (trace (snd (train_model T dl ec w))) b"
  proof (rule train_model_inv [where I = ?I])
    show "?I (trace w) b" for b
      by simp
  next
    fix data and s :: "('a, 'b) tstate"
    assume "?I (trace s) (best_val_loss s)"
    then show "?I (trace (snd (train_step T ec dl data s)))
        (best_val_loss (snd (train_step T ec dl data s)))"
      using best_inv_step [of s "trace w" _ T ec dl data] by blast
  qed
  then show ?thesis
    by (auto simp: new_events_def)
qed

section \<open>Validation: averaged losses, no gradients\<close>

lemma consumed_prefix: "prefix (consumed T ec ds n) ds"
  by (induction ds arbitrary: n) simp_all

lemma consumed_all: "num_val_samples ec = None \<Longrightarrow> consumed T ec ds n = ds"
  by (induction ds arbitrary: n) simp_all

text \<open>
  With a limit \<open>k\<close>, every processed batch was started with fewer than \<open>k\<close> samples counted,
  and batches are left over only if the limit has been reached.
\<close>

lemma consumed_stops_at_limit:
  assumes "consumed T ec ds n \<noteq> ds"
  shows "\<exists>k. num_val_samples ec = Some k \<and>
     k \<le> int (n + (\<Sum>d\<leftarrow>consumed T ec ds n. batch_size T d))"
  using assms
proof (induction ds arbitrary: n)
  case Nil
  then show ?case by simp
next
  case (Cons d ds)
  show ?case
  proof (cases "case num_val_samples ec of None \<Rightarrow> False | Some k \<Rightarrow> int n \<ge> k")
    case True
    then show ?thesis
      by (auto split: option.splits)
  next
    case False
    with Cons.prems have "consumed T ec ds (n + batch_size T d) \<noteq> ds"
      by simp
    from Cons.IH [OF this] False show ?thesis
      by (auto simp: add.assoc)
  qed
qed

lemma consumed_below_limit:
  assumes "consumed T ec ds n = cs @ d # rest" and "num_val_samples ec = Some k"
  shows "int (n + (\<Sum>c\<leftarrow>cs. batch_size T c)) < k"
  using assms(1)
proof (induction ds arbitrary: n cs)
  case Nil
  then show ?case by simp
next
  case (Cons x ds)
  from Cons.prems assms(2) have below: "int n < k"
    and eq: "x # consumed T ec ds (n + batch_size T x) = cs @ d # rest"
    by (auto split: if_splits)
  show ?case
  proof (cases cs)
    case Nil
    with below show ?thesis by simp
  next
    case cs: (Cons c cs')
    with eq have c: "c = x" and tl: "consumed T ec ds (n + batch_size T x) = cs' @ d # rest"
      by auto
    from Cons.IH [OF tl] cs c show ?thesis
      by (simp add: add.assoc)
  qed
qed

lemma eval_model_value:
  "fst (eval_model T ec ds s) =
     (let cs = consumed T ec ds 0;
          N = (\<Sum>d\<leftarrow>cs. batch_size T d);
          avg_self = (\<Sum>d\<leftarrow>cs. fst (losses T ec False (net s) d) * real (batch_size T d)) / real N;
          avg_lang = (\<Sum>d\<leftarrow>cs. fst (snd (losses T ec False (net s) d)) * real (batch_size T d)) / real N;
          avg_neg = (\<Sum>d\<leftarrow>cs. snd (snd (losses T ec False (net s) d)) * real (batch_size T d)) / real N
      in if N = 0 then Inl ZeroDivisionError
         else Inr \<lparr>self_sup_loss = avg_self, lang_sup_loss = avg_lang, neg_noun_loss = avg_neg,
                   total_loss = self_sup_loss_wt ec * avg_self + lang_sup_loss_wt ec * avg_lang +
                                neg_noun_loss_wt ec * avg_neg\<rparr>)"
  by (simp add: eval_model_def eval_batches_eq set_mode_def Let_def)

lemma no_grad_forward_scalars [simp]:
  "Forward a b \<notin> set (map (\<lambda>(name, v). AddScalar name v st) items)"
  by (induction items) auto

lemma no_grad_forward_periodic [simp]: "Forward a b \<notin> set (periodic_checkpoints ec s)"
  by (auto simp: periodic_checkpoints_def)

lemma no_grad_forward_best [simp]: "Forward a b \<notin> set (best_checkpoints ec v s)"
  by (auto simp: best_checkpoints_def)

lemma eval_forward_step_events: "Forward False True \<notin> set (step_events T ec dl data s)"
  by (auto simp: step_events_def case_prod_beta log_events_def save_events_def val_events_def
      split: sum.splits if_splits)

lemma eval_forward_train_model:
  "Forward False True \<notin> set (new_events w (snd (train_model T dl ec w)))"
proof -
  let ?I = "\<lambda>tr (b::real). \<exists>evs. tr = trace w @ evs \<and> Forward False True \<notin> set evs"
  have "\<exists>b. ?I (trace (snd (train_model T dl ec w))) b"
  proof (rule train_model_inv [where I = ?I])
    show "?I (trace w) b" for b
      by simp
  next
    fix data and s :: "('a, 'b) tstate"
    assume "?I (trace s) (best_val_loss s)"
    then obtain evs where "trace s = trace w @ evs" "Forward False True \<notin> set evs"
      by blast
    then have "trace (snd (train_step T ec dl data s)) = trace w @ (evs @ step_events T ec dl data s)
        \<and> Forward False True \<notin> set (evs @ step_events T ec dl data s)"
      by (simp add: train_step_trace eval_forward_step_events)
    then show "?I (trace (snd (train_step T ec dl data s)))
        (best_val_loss (snd (train_step T ec dl data s)))"
      by blast
  qed
  then show ?thesis
    by (auto simp: new_events_def)
qed

text \<open>
  Claim C6.  Let \<open>cs\<close> be the batches that \<^verbatim>\<open>eval_model\<close> processes (a prefix of the
  loader, all of it if \<^verbatim>\<open>num_val_samples\<close> is \<^verbatim>\<open>None\<close>) and \<open>N\<close> the number of their
  samples.  If \<open>N\<close> is positive, \<^verbatim>\<open>eval_model\<close> returns for each loss term the sum over \<open>cs\<close>
  of the loss of the batch times its size, divided by \<open>N\<close>, and as \<^verbatim>\<open>total_loss\<close> the sum
  of the three averages weighted with the configured loss weights.  (For \<open>N = 0\<close> the
  division raises, see \<open>eval_model_value\<close>.)  And in a run of \<^verbatim>\<open>train_model\<close> every forward
  pass made in evaluation mode, that is every forward pass of a validation pass, is made
  with autograd switched off.
\<close>

theorem C6_validation_average_no_grad:
  assumes "cs = consumed T ec dataloader 0"
    and "N = (\<Sum>d\<leftarrow>cs. batch_size T d)"
    and "0 < N"
  shows "fst (eval_model T ec dataloader s) =
      Inr \<lparr>self_sup_loss =
             (\<Sum>d\<leftarrow>cs. fst (losses T ec False (net s) d) * real (batch_size T d)) / real N,
           lang_sup_loss =
             (\<Sum>d\<leftarrow>cs. fst (snd (losses T ec False (net s) d)) * real (batch_size T d)) / real N,
           neg_noun_loss =
             (\<Sum>d\<leftarrow>cs. snd (snd (losses T ec False (net s) d)) * real (batch_size T d)) / real N,
           total_loss =
             self_sup_loss_wt ec *
               ((\<Sum>d\<leftarrow>cs. fst (losses T ec False (net s) d) * real (batch_size T d)) / real N) +
             lang_sup_loss_wt ec *
               ((\<Sum>d\<leftarrow>cs. fst (snd (losses T ec False (net s) d)) * real (batch_size T d)) / real N) +
             neg_noun_loss_wt ec *
               ((\<Sum>d\<leftarrow>cs. snd (snd (losses T ec False (net s) d)) * real (batch_size T d)) / real N)\<rparr>
    \<and> (\<forall>g. Forward False g \<in> set (new_events w (snd (train_model T dl ec w))) \<longrightarrow> \<not> g)"
proof -
  have nograd: "\<forall>g. Forward False g \<in> set (new_events w (snd (train_model T dl ec w))) \<longrightarrow> \<not> g"
    using eval_forward_train_model [of w T dl ec] by (metis (full_types))
  have "N \<noteq> 0"
    using assms(3) by simp
  have "fst (eval_model T ec dataloader s) =
      Inr \<lparr>self_sup_loss =
             (\<Sum>d\<leftarrow>cs. fst (losses T ec False (net s) d) * real (batch_size T d)) / real N,
           lang_sup_loss =
             (\<Sum>d\<leftarrow>cs. fst (snd (losses T ec False (net s) d)) * real (batch_size T d)) / real N,
           neg_noun_loss =
             (\<Sum>d\<leftarrow>cs. snd (snd (losses T ec False (net s) d)) * real (batch_size T d)) / real N,
           total_loss =
             self_sup_loss_wt ec *
               ((\<Sum>d\<leftarrow>cs. fst (losses T ec False (net s) d) * real (batch_size T d)) / real N) +
             lang_sup_loss_wt ec *
               ((\<Sum>d\<leftarrow>cs. fst (snd (losses T ec False (net s) d)) * real (batch_size T d)) / real N) +
             neg_noun_loss_wt ec *
               ((\<Sum>d\<leftarrow>cs. snd (snd (losses T ec False (net s) d)) * real (batch_size T d)) / real N)\<rparr>"
    unfolding eval_model_value Let_def assms(1) [symmetric] assms(2) [symmetric]
    using \<open>N \<noteq> 0\<close> by simp
  with nograd show ?thesis
    by blast
qed

lemmas demo_defs = demo_torch_def demo_const_def demo_loaders_def demo_world_def

text \<open>The theorem at the demo run: two of the three validation batches are processed,
  since \<^verbatim>\<open>num_val_samples\<close> is 3.\<close>

theorem C6_validation_average_no_grad_witness:
  "consumed demo_torch demo_const (val demo_loaders 0) 0 = [(4, 2), (2, 1)] \<and>
   fst (eval_model demo_torch demo_const (val demo_loaders 0) demo_world) =
     Inr \<lparr>self_sup_loss = 10 / 3, lang_sup_loss = 1, neg_noun_loss = 0, total_loss = 16 / 3\<rparr> \<and>
   Forward False True \<notin>
     set (new_events demo_world (snd (train_model demo_torch demo_loaders demo_const demo_world)))"
proof -
  have cs: "[(4, 2), (2, 1)] = consumed demo_torch demo_const (val demo_loaders 0) 0"
    by (simp add: demo_defs)
  have N: "(3::nat) = (\<Sum>d\<leftarrow>[(4::real, 2::nat), (2, 1)]. batch_size demo_torch d)"
    by (simp add: demo_defs)
  have pos: "0 < (3::nat)"
    by simp
  note th = C6_validation_average_no_grad [OF cs N pos, of demo_world demo_world demo_loaders]
  have v: "fst (eval_model demo_torch demo_const (val demo_loaders 0) demo_world) =
     Inr \<lparr>self_sup_loss = 10 / 3, lang_sup_loss = 1, neg_noun_loss = 0, total_loss = 16 / 3\<rparr>"
    using th [THEN conjunct1] by (simp add: demo_defs)
  have g: "Forward False True \<notin>
     set (new_events demo_world (snd (train_model demo_torch demo_loaders demo_const demo_world)))"
    using th [THEN conjunct2] by blast
  from cs [symmetric] v g show ?thesis
    by blast
qed

section \<open>The checkpoints of one iteration\<close>

lemma is_save_kind_simps [simp]:
  "\<not> is_periodic_save (SetTraining b)" "\<not> is_best_save (SetTraining b)"
  "\<not> is_periodic_save (Forward b g)" "\<not> is_best_save (Forward b g)"
  "\<not> is_periodic_save ZeroGrad" "\<not> is_best_save ZeroGrad"
  "\<not> is_periodic_save (Backward l)" "\<not> is_best_save (Backward l)"
  "\<not> is_periodic_save OptStep" "\<not> is_best_save OptStep"
  "\<not> is_periodic_save (AddScalar n v st)" "\<not> is_best_save (AddScalar n v st)"
  by (simp_all add: is_periodic_save_def is_best_save_def)

lemma filter_scalars [simp]:
  "filter is_periodic_save (map (\<lambda>(name, v). AddScalar name v st) items) = []"
  "filter is_best_save (map (\<lambda>(name, v). AddScalar name v st) items) = []"
  by (induction items) auto

lemma filter_periodic_checkpoints [simp]:
  "filter is_periodic_save (periodic_checkpoints ec s) = periodic_checkpoints ec s"
  "filter is_best_save (periodic_checkpoints ec s) = []"
  by (simp_all add: periodic_checkpoints_def save_items_def is_periodic_save_def
      is_best_save_def best_loss_of_def)

lemma filter_best_checkpoints [simp]:
  "filter is_periodic_save (best_checkpoints ec v s) = []"
  "filter is_best_save (best_checkpoints ec v s) = best_checkpoints ec v s"
  by (simp_all add: best_checkpoints_def best_save_items_def is_periodic_save_def
      is_best_save_def best_loss_of_def)

lemma periodic_checkpoints_nonempty [simp]: "periodic_checkpoints ec s \<noteq> []"
  by (simp add: periodic_checkpoints_def save_items_def)

lemma best_checkpoints_nonempty [simp]: "best_checkpoints ec v s \<noteq> []"
  by (simp add: best_checkpoints_def best_save_items_def)

lemma filter_log_events [simp]:
  "filter is_periodic_save (log_events ec ls st) = []"
  "filter is_best_save (log_events ec ls st) = []"
  by (simp_all add: log_events_def)

lemma filter_save_events [simp]:
  "filter is_periodic_save (save_events ec s) = save_events ec s"
  "filter is_best_save (save_events ec s) = []"
  by (simp_all add: save_events_def)

lemma filter_val_events:
  "filter is_periodic_save (val_events T ec dl s) = []"
  "filter is_best_save (val_events T ec dl s) =
     (if val_step ec \<noteq> 0 \<and> step s mod val_step ec = 0 then
        (case eval_value T ec (val dl (step s)) (net s) of
           Inl e \<Rightarrow> []
         | Inr res \<Rightarrow>
             if total_loss res < best_val_loss s
             then best_checkpoints ec (total_loss res) s else [])
      else [])"
  by (simp_all add: val_events_def split: sum.splits)

lemma step_events_periodic:
  assumes "log_step ec \<noteq> 0" and "model_save_step ec \<noteq> 0"
  shows "filter is_periodic_save (step_events T ec dl data s) =
     (if step s mod model_save_step ec = 0
      then periodic_checkpoints ec (snd (forward_backward T ec data s)) else [])"
  using assms
  by (simp add: step_events_def case_prod_beta filter_val_events save_events_def)

lemma step_events_best:
  assumes "log_step ec \<noteq> 0" and "model_save_step ec \<noteq> 0"
  shows "filter is_best_save (step_events T ec dl data s) =
     (if val_step ec \<noteq> 0 \<and> step s mod val_step ec = 0 then
        (case fst (eval_model T ec (val dl (step s)) (snd (forward_backward T ec data s))) of
           Inl e \<Rightarrow> []
         | Inr res \<Rightarrow>
             if total_loss res < best_val_loss s
             then best_checkpoints ec (total_loss res) (snd (forward_backward T ec data s))
             else [])
      else [])"
  using assms
  by (simp add: step_events_def case_prod_beta filter_val_events eval_model_eq
      split: sum.splits)

text \<open>
  One iteration at step \<open>step s\<close> (with intervals \<^verbatim>\<open>log_step\<close> and
  \<^verbatim>\<open>model_save_step\<close> that are not zero, so that their tests do not raise): periodic
  checkpoints are written if and only if \<open>step s mod model_save_step = 0\<close>, and best
  checkpoints are written if and only if the step is a validation step and the total
  validation loss that \<^verbatim>\<open>eval_model\<close> has just returned is strictly less than the best
  loss of the state.  The lemmas \<open>step_events_periodic\<close> and \<open>step_events_best\<close> give the
  checkpoints themselves.
\<close>

lemma step_checkpoint_schedule:
  assumes "log_step ec \<noteq> 0" and "model_save_step ec \<noteq> 0"
    and "evs = new_events s (snd (train_step T ec dl data s))"
  shows "(filter is_periodic_save evs \<noteq> [] \<longleftrightarrow> step s mod model_save_step ec = 0) \<and>
     (filter is_best_save evs \<noteq> [] \<longleftrightarrow>
        val_step ec \<noteq> 0 \<and> step s mod val_step ec = 0 \<and>
        (case fst (eval_model T ec (val dl (step s)) (snd (forward_backward T ec data s))) of
           Inl e \<Rightarrow> False
         | Inr res \<Rightarrow> total_loss res < best_val_loss s))"
  using assms(1,2) unfolding assms(3) new_events_train_step
  by (simp add: step_events_periodic step_events_best split: sum.splits)

section \<open>Unsupported optimizer or dataset\<close>

text \<open>The only exception that the loop of the model can raise is \<^verbatim>\<open>ZeroDivisionError\<close>.\<close>

lemma train_step_error: "fst (train_step T ec dl data s) = Some e \<Longrightarrow> e = ZeroDivisionError"
  by (auto simp: train_step_fst split: if_splits sum.splits dest: eval_value_error)

lemma train_batches_error:
  "fst (train_batches T ec dl ds s) = Some e \<Longrightarrow> e = ZeroDivisionError"
proof (induction ds arbitrary: s)
  case Nil
  then show ?case by simp
next
  case (Cons d ds)
  then show ?case
    by (auto simp: seq_fst split: option.splits dest: train_step_error)
qed

lemma train_epochs_error:
  "fst (train_epochs T ec dl es s) = Some e \<Longrightarrow> e = ZeroDivisionError"
proof (induction es arbitrary: s)
  case Nil
  then show ?case by simp
next
  case (Cons ep es)
  then show ?case
    by (auto simp: seq_fst split: option.splits dest: train_batches_error)
qed

lemma train_model_error:
  assumes "optimizer ec = ''SGD'' \<or> optimizer ec = ''Adam''"
    and "fst (train_model T dl ec w) = Some e"
  shows "e = ZeroDivisionError"
proof -
  obtain opt0 where "create_optimizer T ec (net w) = Inr opt0"
    using assms(1) by (auto simp: create_optimizer_def)
  then have "fst (train_model T dl ec w) =
      fst (train_epochs T ec dl [0..<nat (num_epochs ec)] (init_state w opt0))"
    by (simp add: train_model_def split: prod.splits)
  with assms(2) show ?thesis
    by (auto dest: train_epochs_error)
qed

text \<open>
  Claim C4.  With a dataset name other than \<^verbatim>\<open>coco\<close> and \<^verbatim>\<open>flickr\<close>, \<^verbatim>\<open>main\<close> raises
  \<^verbatim>\<open>NotImplementedError\<close>; with a supported dataset and an optimizer other than \<^verbatim>\<open>SGD\<close> and
  \<^verbatim>\<open>Adam\<close>, \<^verbatim>\<open>train_model\<close> and hence \<^verbatim>\<open>main\<close> raise \<^verbatim>\<open>AssertionError\<close>.  In both cases
  the log of effects is still empty and the model untouched: no training step has run,
  and the exception is the result of the call (nothing catches it).  With supported
  values neither check raises, and no run ends in one of the two exceptions.  The
  \<^verbatim>\<open>assert\<close> is modelled as Python executes it by default, with assertions enabled.
\<close>

theorem C4_unsupported_configuration:
  fixes m :: "'sd model"
  defines "w0 \<equiv> \<lparr>net = m, training = True, grad_enabled = True, trace = []\<rparr>"
  shows
    "(dataset ec \<noteq> ''coco'' \<and> dataset ec \<noteq> ''flickr'' \<longrightarrow>
        main T mk_loaders ec m = (Some NotImplementedError, w0)) \<and>
     ((dataset ec = ''coco'' \<or> dataset ec = ''flickr'') \<and>
      optimizer ec \<noteq> ''SGD'' \<and> optimizer ec \<noteq> ''Adam'' \<longrightarrow>
        main T mk_loaders ec m = (Some AssertionError, w0)) \<and>
     (optimizer ec \<noteq> ''SGD'' \<and> optimizer ec \<noteq> ''Adam'' \<longrightarrow>
        train_model T dl ec w = (Some AssertionError, w)) \<and>
     ((dataset ec = ''coco'' \<or> dataset ec = ''flickr'') \<and>
      (optimizer ec = ''SGD'' \<or> optimizer ec = ''Adam'') \<longrightarrow>
        choose_dataset ec \<noteq> Inl NotImplementedError \<and>
        create_optimizer T ec m \<noteq> Inl AssertionError \<and>
        fst (main T mk_loaders ec m) \<noteq> Some NotImplementedError \<and>
        fst (main T mk_loaders ec m) \<noteq> Some AssertionError)"
proof (intro conjI impI)
  assume "dataset ec \<noteq> ''coco'' \<and> dataset ec \<noteq> ''flickr''"
  then show "main T mk_loaders ec m = (Some NotImplementedError, w0)"
    by (simp add: main_def choose_dataset_def w0_def)
next
  assume "(dataset ec = ''coco'' \<or> dataset ec = ''flickr'') \<and>
      optimizer ec \<noteq> ''SGD'' \<and> optimizer ec \<noteq> ''Adam''"
  then show "main T mk_loaders ec m = (Some AssertionError, w0)"
    by (auto simp: main_def choose_dataset_def w0_def train_model_def create_optimizer_def)
next
  assume "optimizer ec \<noteq> ''SGD'' \<and> optimizer ec \<noteq> ''Adam''"
  then show "train_model T dl ec w = (Some AssertionError, w)"
    by (simp add: train_model_def create_optimizer_def)
next
  assume ok: "(dataset ec = ''coco'' \<or> dataset ec = ''flickr'') \<and>
      (optimizer ec = ''SGD'' \<or> optimizer ec = ''Adam'')"
  then show "choose_dataset ec \<noteq> Inl NotImplementedError"
    by (auto simp: choose_dataset_def)
  from ok show "create_optimizer T ec m \<noteq> Inl AssertionError"
    by (auto simp: create_optimizer_def)
  from ok obtain D where "main T mk_loaders ec m = train_model T (mk_loaders D) ec w0"
    by (auto simp: main_def choose_dataset_def w0_def)
  with ok have "fst (main T mk_loaders ec m) = Some e \<Longrightarrow> e = ZeroDivisionError" for e
    using train_model_error [of ec T "mk_loaders D" w0 e] by simp
  then show "fst (main T mk_loaders ec m) \<noteq> Some NotImplementedError"
    and "fst (main T mk_loaders ec m) \<noteq> Some AssertionError"
    by auto
qed

text \<open>The demo configuration with dataset \<^verbatim>\<open>voc\<close>, with optimizer \<^verbatim>\<open>RMSprop\<close>, and as it is.\<close>

theorem C4_unsupported_configuration_witness:
  "main demo_torch (\<lambda>D. demo_loaders) (demo_const\<lparr>dataset := ''voc''\<rparr>) (net demo_world) =
     (Some NotImplementedError, demo_world) \<and>
   main demo_torch (\<lambda>D. demo_loaders) (demo_const\<lparr>optimizer := ''RMSprop''\<rparr>) (net demo_world) =
     (Some AssertionError, demo_world) \<and>
   train_model demo_torch demo_loaders (demo_const\<lparr>optimizer := ''RMSprop''\<rparr>) demo_world =
     (Some AssertionError, demo_world) \<and>
   fst (main demo_torch (\<lambda>D. demo_loaders) demo_const (net demo_world)) \<noteq> Some NotImplementedError \<and>
   fst (main demo_torch (\<lambda>D. demo_loaders) demo_const (net demo_world)) \<noteq> Some AssertionError"
proof -
  have w: "\<lparr>net = net demo_world, training = True, grad_enabled = True, trace = []\<rparr> = demo_world"
    by (simp add: demo_world_def)
  have 1: "main demo_torch (\<lambda>D. demo_loaders) (demo_const\<lparr>dataset := ''voc''\<rparr>) (net demo_world) =
     (Some NotImplementedError, demo_world)"
    using C4_unsupported_configuration
      [of "demo_const\<lparr>dataset := ''voc''\<rparr>" demo_torch "\<lambda>D. demo_loaders" "net demo_world"]
    unfolding w by (simp add: demo_const_def)
  have 2: "main demo_torch (\<lambda>D. demo_loaders) (demo_const\<lparr>optimizer := ''RMSprop''\<rparr>)
      (net demo_world) = (Some AssertionError, demo_world)"
    using C4_unsupported_configuration
      [of "demo_const\<lparr>optimizer := ''RMSprop''\<rparr>" demo_torch "\<lambda>D. demo_loaders" "net demo_world"]
    unfolding w by (simp add: demo_const_def)
  have 3: "train_model demo_torch demo_loaders (demo_const\<lparr>optimizer := ''RMSprop''\<rparr>) demo_world =
     (Some AssertionError, demo_world)"
    using C4_unsupported_configuration
      [of "demo_const\<lparr>optimizer := ''RMSprop''\<rparr>" demo_torch _ _ demo_loaders demo_world]
    by (simp add: demo_const_def)
  have 4: "fst (main demo_torch (\<lambda>D. demo_loaders) demo_const (net demo_world)) \<noteq>
        Some NotImplementedError \<and>
      fst (main demo_torch (\<lambda>D. demo_loaders) demo_const (net demo_world)) \<noteq> Some AssertionError"
    using C4_unsupported_configuration
      [of demo_const demo_torch "\<lambda>D. demo_loaders" "net demo_world"]
    by (simp add: demo_const_def)
  from 1 2 3 4 show ?thesis
    by blast
qed

section \<open>What a checkpoint contains\<close>

lemma Save_in_scalars [simp]:
  "Save p ck \<notin> set (map (\<lambda>(name, v). AddScalar name v st) items)"
  by (induction items) auto

lemma Save_in_log_events [simp]: "Save p ck \<notin> set (log_events ec ls st)"
  by (auto simp: log_events_def)

lemma Save_in_periodic:
  "Save p ck \<in> set (periodic_checkpoints ec s) \<longleftrightarrow>
     (\<exists>name sd. (name, sd) \<in> set (save_items ec (net s)) \<and>
        p = path_join (model_dir ec) (name @ ''_'' @ str_int (step s)) \<and>
        ck = [(''state_dict'', StateDictV sd), (''step'', IntV (step s)),
              (''val_loss'', NoneV), (''prev_best_val_loss'', FloatV (best_val_loss s))])"
  by (auto simp: periodic_checkpoints_def)

lemma Save_in_best:
  "Save p ck \<in> set (best_checkpoints ec v s) \<longleftrightarrow>
     (\<exists>name sd. (name, sd) \<in> set (best_save_items ec (net s)) \<and>
        p = path_join (model_dir ec) name \<and>
        ck = [(''state_dict'', StateDictV sd), (''step'', IntV (step s)),
              (''val_loss'', FloatV v), (''prev_best_val_loss'', FloatV (best_val_loss s))])"
  by (auto simp: best_checkpoints_def)

lemma Save_in_val_events:
  "Save p ck \<in> set (val_events T ec dl s) \<Longrightarrow>
     \<exists>res. eval_value T ec (val dl (step s)) (net s) = Inr res \<and>
       total_loss res < best_val_loss s \<and>
       Save p ck \<in> set (best_checkpoints ec (total_loss res) s)"
  by (cases "eval_value T ec (val dl (step s)) (net s)")
    (auto simp: val_events_def split: if_splits)

lemma Save_in_step_events:
  assumes "Save p ck \<in> set (step_events T ec dl data s)"
  shows "Save p ck \<in> set (periodic_checkpoints ec (snd (forward_backward T ec data s))) \<or>
     (\<exists>res. eval_value T ec (val dl (step s)) (net (snd (forward_backward T ec data s))) = Inr res \<and>
        total_loss res < best_val_loss s \<and>
        Save p ck \<in> set (best_checkpoints ec (total_loss res) (snd (forward_backward T ec data s))))"
proof -
  let ?s1 = "snd (forward_backward T ec data s)"
  from assms have "Save p ck \<in> set (save_events ec ?s1) \<or> Save p ck \<in> set (val_events T ec dl ?s1)"
    by (auto simp: step_events_def case_prod_beta split: if_splits)
  then show ?thesis
  proof
    assume "Save p ck \<in> set (save_events ec ?s1)"
    then show ?thesis
      by (auto simp: save_events_def split: if_splits)
  next
    assume "Save p ck \<in> set (val_events T ec dl ?s1)"
    from Save_in_val_events [OF this] show ?thesis
      by simp
  qed
qed

lemma step_checkpoint_contents:
  assumes "Save p ck \<in> set (new_events s (snd (train_step T ec dl data s)))"
    and "s' = snd (train_step T ec dl data s)"
  shows "\<exists>name sd.
     ((name, sd) \<in> set (save_items ec (net s')) \<and>
      p = path_join (model_dir ec) (name @ ''_'' @ str_int (step s)) \<and>
      ck = [(''state_dict'', StateDictV sd), (''step'', IntV (step s)),
            (''val_loss'', NoneV), (''prev_best_val_loss'', FloatV (best_val_loss s))]) \<or>
     ((name, sd) \<in> set (best_save_items ec (net s')) \<and>
      p = path_join (model_dir ec) name \<and>
      (\<exists>res. fst (eval_model T ec (val dl (step s)) (snd (forward_backward T ec data s))) = Inr res \<and>
         total_loss res < best_val_loss s \<and>
         ck = [(''state_dict'', StateDictV sd), (''step'', IntV (step s)),
               (''val_loss'', FloatV (total_loss res)),
               (''prev_best_val_loss'', FloatV (best_val_loss s))]))"
proof -
  let ?s1 = "snd (forward_backward T ec data s)"
  have net: "net s' = net ?s1"
    by (simp add: assms(2) train_step_net)
  from assms(1) have "Save p ck \<in> set (step_events T ec dl data s)"
    by (simp add: new_events_train_step)
  from Save_in_step_events [OF this] show ?thesis
  proof
    assume "Save p ck \<in> set (periodic_checkpoints ec ?s1)"
    then show ?thesis
      by (auto simp: Save_in_periodic net)
  next
    assume "\<exists>res. eval_value T ec (val dl (step s)) (net ?s1) = Inr res \<and>
        total_loss res < best_val_loss s \<and>
        Save p ck \<in> set (best_checkpoints ec (total_loss res) ?s1)"
    then obtain res where res: "eval_value T ec (val dl (step s)) (net ?s1) = Inr res"
        "total_loss res < best_val_loss s"
        "Save p ck \<in> set (best_checkpoints ec (total_loss res) ?s1)"
      by blast
    from res(3) obtain name sd where "(name, sd) \<in> set (best_save_items ec (net ?s1))"
        "p = path_join (model_dir ec) name"
        "ck = [(''state_dict'', StateDictV sd), (''step'', IntV (step s)),
              (''val_loss'', FloatV (total_loss res)),
              (''prev_best_val_loss'', FloatV (best_val_loss s))]"
      by (auto simp: Save_in_best)
    with res(1,2) show ?thesis
      by (auto simp: net eval_model_eq)
  qed
qed

lemma step_checkpoint_keys:
  assumes "Save p ck \<in> set (step_events T ec dl data s)"
  shows "map fst ck = [''state_dict'', ''step'', ''val_loss'', ''prev_best_val_loss'']"
  using Save_in_step_events [OF assms] by (auto simp: Save_in_periodic Save_in_best)

lemma run_checkpoint_keys:
  assumes "Save p ck \<in> set (new_events w (snd (train_model T dl ec w)))"
  shows "map fst ck = [''state_dict'', ''step'', ''val_loss'', ''prev_best_val_loss'']"
proof -
  let ?keys = "[''state_dict'', ''step'', ''val_loss'', ''prev_best_val_loss'']"
  let ?I = "\<lambda>tr (b::real). \<exists>evs. tr = trace w @ evs \<and>
      (\<forall>p ck. Save p ck \<in> set evs \<longrightarrow> map fst ck = ?keys)"
  have "\<exists>b. ?I (trace (snd (train_model T dl ec w))) b"
  proof (rule train_model_inv [where I = ?I])
    show "?I (trace w) b" for b
      by simp
  next
    fix data and s :: "('a, 'b) tstate"
    assume "?I (trace s) (best_val_loss s)"
    then obtain evs where evs: "trace s = trace w @ evs"
        "\<forall>p ck. Save p ck \<in> set evs \<longrightarrow> map fst ck = ?keys"
      by blast
    have "trace (snd (train_step T ec dl data s)) = trace w @ (evs @ step_events T ec dl data s)"
      by (simp add: train_step_trace evs(1))
    moreover have "\<forall>p ck. Save p ck \<in> set (evs @ step_events T ec dl data s) \<longrightarrow>
        map fst ck = ?keys"
      using evs(2) step_checkpoint_keys [of _ _ T ec dl data s] by auto
    ultimately show "?I (trace (snd (train_step T ec dl data s)))
        (best_val_loss (snd (train_step T ec dl data s)))"
      by blast
  qed
  with assms show ?thesis
    by (auto simp: new_events_def)
qed

text \<open>
  Claim C5, as amended.  Every checkpoint that a run of \<^verbatim>\<open>train_model\<close> writes is a
  dictionary with the four keys \<^verbatim>\<open>state_dict\<close>, \<^verbatim>\<open>step\<close>, \<^verbatim>\<open>val_loss\<close> and
  \<^verbatim>\<open>prev_best_val_loss\<close>.  A checkpoint written in the iteration at step \<open>step s\<close> holds the
  state dict of one module (after the optimizer step of that iteration), the step, and
  the best validation loss before the write; under \<^verbatim>\<open>val_loss\<close> a periodic checkpoint
  (file \<^verbatim>\<open>name_step\<close>) holds \<^verbatim>\<open>None\<close>, and a best checkpoint (file \<^verbatim>\<open>best_name\<close>) the total
  validation loss just computed, which is below the previous best.
\<close>

theorem C5_checkpoint_contents:
  "(\<forall>p ck. Save p ck \<in> set (new_events w (snd (train_model T dl ec w))) \<longrightarrow>
      map fst ck = [''state_dict'', ''step'', ''val_loss'', ''prev_best_val_loss'']) \<and>
   (\<forall>p ck. Save p ck \<in> set (new_events s (snd (train_step T ec dl data s))) \<longrightarrow>
      (\<exists>name sd.
         ((name, sd) \<in> set (save_items ec (net (snd (train_step T ec dl data s)))) \<and>
          p = path_join (model_dir ec) (name @ ''_'' @ str_int (step s)) \<and>
          ck = [(''state_dict'', StateDictV sd), (''step'', IntV (step s)),
                (''val_loss'', NoneV), (''prev_best_val_loss'', FloatV (best_val_loss s))]) \<or>
         ((name, sd) \<in> set (best_save_items ec (net (snd (train_step T ec dl data s)))) \<and>
          p = path_join (model_dir ec) name \<and>
          (\<exists>res. fst (eval_model T ec (val dl (step s))
                        (snd (forward_backward T ec data s))) = Inr res \<and>
             total_loss res < best_val_loss s \<and>
             ck = [(''state_dict'', StateDictV sd), (''step'', IntV (step s)),
                   (''val_loss'', FloatV (total_loss res)),
                   (''prev_best_val_loss'', FloatV (best_val_loss s))]))))"
  using run_checkpoint_keys [of _ _ w T dl ec] step_checkpoint_contents [OF _ refl, of _ _ s T ec dl data]
  by blast

section \<open>The demo run\<close>

text \<open>All effects of the demo run: two iterations, each followed by a validation pass
  over two batches; periodic checkpoints at step 0 only, best checkpoints at both steps.\<close>

lemma demo_run:
  "new_events demo_world (snd (train_model demo_torch demo_loaders demo_const demo_world)) =
       [SetTraining True, Forward True True, ZeroGrad, Backward 3, OptStep,
        AddScalar ''Self_Sup_Loss/Train'' 1 0,
        AddScalar ''Lang_Sup_Loss/Train'' 1 0,
        AddScalar ''Neg_Noun_Loss/Train'' 0 0, AddScalar ''Loss/Train'' 3 0,
        AddScalar ''Lr'' (1 / 10) 0,
        Save ''models/object_encoder_0''
         [(''state_dict'', StateDictV 1), (''step'', IntV 0),
          (''val_loss'', NoneV), (''prev_best_val_loss'', FloatV 10000)],
        Save ''models/self_sup_criterion_0''
         [(''state_dict'', StateDictV 10), (''step'', IntV 0),
          (''val_loss'', NoneV), (''prev_best_val_loss'', FloatV 10000)],
        Save ''models/lang_sup_criterion_0''
         [(''state_dict'', StateDictV 20), (''step'', IntV 0),
          (''val_loss'', NoneV), (''prev_best_val_loss'', FloatV 10000)],
        SetTraining False, Forward False False, Forward False False,
        AddScalar ''Self_Sup_Loss/Val'' (5 / 3) 0,
        AddScalar ''Lang_Sup_Loss/Val'' 1 0,
        AddScalar ''Neg_Noun_Loss/Val'' 0 0,
        AddScalar ''Loss/Val'' (11 / 3) 0,
        Save ''models/best_object_encoder''
         [(''state_dict'', StateDictV 1), (''step'', IntV 0),
          (''val_loss'', FloatV (11 / 3)),
          (''prev_best_val_loss'', FloatV 10000)],
        Save ''models/best_self_sup_criterion''
         [(''state_dict'', StateDictV 10), (''step'', IntV 0),
          (''val_loss'', FloatV (11 / 3)),
          (''prev_best_val_loss'', FloatV 10000)],
        Save ''models/best_lang_sup_criterion''
         [(''state_dict'', StateDictV 20), (''step'', IntV 0),
          (''val_loss'', FloatV (11 / 3)),
          (''prev_best_val_loss'', FloatV 10000)],
        SetTraining True, Forward True True, ZeroGrad, Backward 3, OptStep,
        AddScalar ''Self_Sup_Loss/Train'' 1 1,
        AddScalar ''Lang_Sup_Loss/Train'' 1 1,
        AddScalar ''Neg_Noun_Loss/Train'' 0 1, AddScalar ''Loss/Train'' 3 1,
        AddScalar ''Lr'' (1 / 10) 1, SetTraining False, Forward False False,
        Forward False False, AddScalar ''Self_Sup_Loss/Val'' (10 / 9) 1,
        AddScalar ''Lang_Sup_Loss/Val'' 1 1,
        AddScalar ''Neg_Noun_Loss/Val'' 0 1,
        AddScalar ''Loss/Val'' (28 / 9) 1,
        Save ''models/best_object_encoder''
         [(''state_dict'', StateDictV 2), (''step'', IntV 1),
          (''val_loss'', FloatV (28 / 9)),
          (''prev_best_val_loss'', FloatV (11 / 3))],
        Save ''models/best_self_sup_criterion''
         [(''state_dict'', StateDictV 10), (''step'', IntV 1),
          (''val_loss'', FloatV (28 / 9)),
          (''prev_best_val_loss'', FloatV (11 / 3))],
        Save ''models/best_lang_sup_criterion''
         [(''state_dict'', StateDictV 20), (''step'', IntV 1),
          (''val_loss'', FloatV (28 / 9)),
          (''prev_best_val_loss'', FloatV (11 / 3))]]"
  by code_simp


theorem C1_best_val_loss_monotone_witness:
  "saved_best_losses
     (new_events demo_world (snd (train_model demo_torch demo_loaders demo_const demo_world))) =
     [11 / 3, 11 / 3, 11 / 3, 28 / 9, 28 / 9, 28 / 9] \<and>
   sorted_wrt (\<lambda>earlier later. later \<le> earlier)
     (saved_best_losses
        (new_events demo_world (snd (train_model demo_torch demo_loaders demo_const demo_world))))"
proof -
  have "saved_best_losses
     (new_events demo_world (snd (train_model demo_torch demo_loaders demo_const demo_world))) =
     [11 / 3, 11 / 3, 11 / 3, 28 / 9, 28 / 9, 28 / 9]"
    by (simp add: demo_run best_loss_of_def)
  with C1_best_val_loss_monotone [of demo_world demo_torch demo_loaders demo_const]
  show ?thesis
    by blast
qed

text \<open>
  Claim C5 as stated fails: the first checkpoint of the demo run is a periodic one, and
  what it holds under \<^verbatim>\<open>val_loss\<close> is \<^verbatim>\<open>None\<close>, not a validation loss.
\<close>

theorem C5_periodic_checkpoint_has_no_val_loss:
  "Save ''models/object_encoder_0''
     [(''state_dict'', StateDictV 1), (''step'', IntV 0), (''val_loss'', NoneV),
      (''prev_best_val_loss'', FloatV 10000)]
   \<in> set (new_events demo_world (snd (train_model demo_torch demo_loaders demo_const demo_world)))"
  by (simp add: demo_run)

lemma demo_first_step_save:
  "Save ''models/object_encoder_0''
     [(''state_dict'', StateDictV 1), (''step'', IntV 0), (''val_loss'', NoneV),
      (''prev_best_val_loss'', FloatV 10000)]
   \<in> set (new_events demo_state
            (snd (train_step demo_torch demo_const demo_loaders (1, 2) demo_state)))"
  by code_simp

text \<open>The amended claim at the demo run: a best checkpoint of the run, and the periodic
  checkpoint of the first iteration.\<close>

theorem C5_checkpoint_contents_witness:
  "Save ''models/best_object_encoder''
     [(''state_dict'', StateDictV 1), (''step'', IntV 0), (''val_loss'', FloatV (11 / 3)),
      (''prev_best_val_loss'', FloatV 10000)]
   \<in> set (new_events demo_world (snd (train_model demo_torch demo_loaders demo_const demo_world))) \<and>
   map fst
     [(''state_dict'', StateDictV (1::nat)), (''step'', IntV 0), (''val_loss'', FloatV (11 / 3)),
      (''prev_best_val_loss'', FloatV 10000)] =
     [''state_dict'', ''step'', ''val_loss'', ''prev_best_val_loss''] \<and>
   Save ''models/object_encoder_0''
     [(''state_dict'', StateDictV 1), (''step'', IntV 0), (''val_loss'', NoneV),
      (''prev_best_val_loss'', FloatV 10000)]
   \<in> set (new_events demo_state
            (snd (train_step demo_torch demo_const demo_loaders (1, 2) demo_state))) \<and>
   (\<exists>name sd.
      ((name, sd) \<in> set (save_items demo_const
          (net (snd (train_step demo_torch demo_const demo_loaders (1, 2) demo_state)))) \<and>
       ''models/object_encoder_0'' =
         path_join (model_dir demo_const) (name @ ''_'' @ str_int (step demo_state)) \<and>
       [(''state_dict'', StateDictV 1), (''step'', IntV 0), (''val_loss'', NoneV),
        (''prev_best_val_loss'', FloatV 10000)] =
       [(''state_dict'', StateDictV sd), (''step'', IntV (step demo_state)),
        (''val_loss'', NoneV), (''prev_best_val_loss'', FloatV (best_val_loss demo_state))]) \<or>
      ((name, sd) \<in> set (best_save_items demo_const
          (net (snd (train_step demo_torch demo_const demo_loaders (1, 2) demo_state)))) \<and>
       ''models/object_encoder_0'' = path_join (model_dir demo_const) name \<and>
       (\<exists>res. fst (eval_model demo_torch demo_const (val demo_loaders (step demo_state))
                     (snd (forward_backward demo_torch demo_const (1, 2) demo_state))) = Inr res \<and>
          total_loss res < best_val_loss demo_state \<and>
          [(''state_dict'', StateDictV 1), (''step'', IntV 0), (''val_loss'', NoneV),
           (''prev_best_val_loss'', FloatV 10000)] =
          [(''state_dict'', StateDictV sd), (''step'', IntV (step demo_state)),
           (''val_loss'', FloatV (total_loss res)),
           (''prev_best_val_loss'', FloatV (best_val_loss demo_state))])))"
proof -
  have mem: "Save ''models/best_object_encoder''
     [(''state_dict'', StateDictV 1), (''step'', IntV 0), (''val_loss'', FloatV (11 / 3)),
      (''prev_best_val_loss'', FloatV 10000)]
   \<in> set (new_events demo_world (snd (train_model demo_torch demo_loaders demo_const demo_world)))"
    by (simp add: demo_run)
  note th = C5_checkpoint_contents [of demo_world demo_torch demo_loaders demo_const
      demo_state "(1, 2)"]
  from th [THEN conjunct1, rule_format, OF mem]
    th [THEN conjunct2, rule_format, OF demo_first_step_save] mem demo_first_step_save
  show ?thesis
    by blast
qed

lemma str_int_0 [simp]: "str_int 0 = ''0''"
  by (simp add: str_int_def str_nat.simps digit_char_def)

lemma first_step_effects:
  assumes "0 < log_step ec" and "0 < model_save_step ec" and "0 < val_step ec"
    and "step s = 0"
  shows "\<exists>v. AddScalar ''Loss/Train'' v 0 \<in> set (step_events T ec dl data s)"
    and "\<exists>ck. Save (path_join (model_dir ec) ''object_encoder_0'') ck
           \<in> set (step_events T ec dl data s)"
    and "sublist (SetTraining False #
           replicate (length (consumed T ec (val dl 0) 0)) (Forward False False))
         (step_events T ec dl data s)"
proof -
  let ?s1 = "snd (forward_backward T ec data s)"
  let ?ls = "fst (forward_backward T ec data s)"
  let ?fb = "[SetTraining True, Forward True (grad_enabled s), ZeroGrad,
      Backward (snd (snd (snd ?ls))), OptStep]"
  have ev: "step_events T ec dl data s =
      ?fb @ log_events ec ?ls 0 @ save_events ec ?s1 @ val_events T ec dl ?s1"
    using assms by (simp add: step_events_def case_prod_beta)
  have "AddScalar ''Loss/Train'' (snd (snd (snd ?ls))) 0 \<in> set (log_events ec ?ls 0)"
    by (simp add: log_events_def train_log_items_def case_prod_beta)
  then show "\<exists>v. AddScalar ''Loss/Train'' v 0 \<in> set (step_events T ec dl data s)"
    unfolding ev by auto
  have "Save (path_join (model_dir ec) ''object_encoder_0'')
      [(''state_dict'', StateDictV (object_encoder (net ?s1))), (''step'', IntV 0),
       (''val_loss'', NoneV), (''prev_best_val_loss'', FloatV (best_val_loss s))]
      \<in> set (save_events ec ?s1)"
    using assms(4) by (simp add: save_events_def periodic_checkpoints_def save_items_def)
  then show "\<exists>ck. Save (path_join (model_dir ec) ''object_encoder_0'') ck
      \<in> set (step_events T ec dl data s)"
    unfolding ev by auto
  obtain tl where "val_events T ec dl ?s1 =
      (SetTraining False # replicate (length (consumed T ec (val dl 0) 0)) (Forward False False))
      @ tl"
    using assms(3,4) by (simp add: val_events_def)
  then have "step_events T ec dl data s =
      (?fb @ log_events ec ?ls 0 @ save_events ec ?s1) @
      (SetTraining False # replicate (length (consumed T ec (val dl 0) 0)) (Forward False False))
      @ tl"
    by (simp add: ev)
  then show "sublist (SetTraining False #
           replicate (length (consumed T ec (val dl 0) 0)) (Forward False False))
         (step_events T ec dl data s)"
    unfolding sublist_def by blast
qed

section \<open>The first iteration\<close>

lemma seq_trace_ext:
  assumes "\<And>s. \<exists>rest. trace (snd (g s)) = trace s @ rest"
  shows "\<exists>rest. trace (snd (seq f g s)) = trace (snd (f s)) @ rest"
  using assms [of "snd (f s)"] by (auto simp: seq_snd split: option.splits)

lemma train_batches_trace_ext: "\<exists>rest. trace (snd (train_batches T ec dl ds s)) = trace s @ rest"
proof (induction ds arbitrary: s)
  case Nil
  show ?case by simp
next
  case (Cons d ds)
  obtain rest where "trace (snd (train_batches T ec dl (d # ds) s)) =
      trace (snd (train_step T ec dl d s)) @ rest"
    using seq_trace_ext [of "train_batches T ec dl ds" "train_step T ec dl d" s] Cons.IH
    by auto
  then show ?case
    by (simp add: train_step_trace)
qed

lemma train_epochs_trace_ext: "\<exists>rest. trace (snd (train_epochs T ec dl es s)) = trace s @ rest"
proof (induction es arbitrary: s)
  case Nil
  show ?case by simp
next
  case (Cons e es)
  obtain rest where "trace (snd (train_epochs T ec dl (e # es) s)) =
      trace (snd (train_batches T ec dl (train dl e) s)) @ rest"
    using seq_trace_ext [of "train_epochs T ec dl es" "train_batches T ec dl (train dl e)" s]
      Cons.IH
    by auto
  moreover obtain rest' where "trace (snd (train_batches T ec dl (train dl e) s)) = trace s @ rest'"
    using train_batches_trace_ext by blast
  ultimately show ?case
    by simp
qed

lemma train_model_first_step:
  assumes "create_optimizer T ec (net w) = Inr opt0"
    and "0 < num_epochs ec"
    and "train dl 0 = data # ds"
  shows "\<exists>rest. new_events w (snd (train_model T dl ec w)) =
      step_events T ec dl data (init_state w opt0) @ rest"
proof -
  let ?s0 = "init_state w opt0"
  let ?es = "[Suc 0..<nat (num_epochs ec)]"
  have upt: "[0..<nat (num_epochs ec)] = 0 # ?es"
    using assms(2) by (simp add: upt_conv_Cons)
  obtain r1 where r1: "trace (snd (train_epochs T ec dl (0 # ?es) ?s0)) =
      trace (snd (train_batches T ec dl (data # ds) ?s0)) @ r1"
    using seq_trace_ext [of "train_epochs T ec dl ?es" "train_batches T ec dl (train dl 0)" ?s0]
      train_epochs_trace_ext [of T ec dl ?es]
    by (auto simp: assms(3))
  obtain r2 where r2: "trace (snd (train_batches T ec dl (data # ds) ?s0)) =
      trace (snd (train_step T ec dl data ?s0)) @ r2"
    using seq_trace_ext [of "train_batches T ec dl ds" "train_step T ec dl data" ?s0]
      train_batches_trace_ext [of T ec dl ds]
    by auto
  have "trace (snd (train_model T dl ec w)) =
      trace (snd (train_epochs T ec dl [0..<nat (num_epochs ec)] ?s0))"
    by (simp add: train_model_def assms(1) final_world_def split: prod.splits)
  also have "\<dots> = trace (snd (train_step T ec dl data ?s0)) @ r2 @ r1"
    unfolding upt r1 r2 by simp
  also have "\<dots> = trace ?s0 @ step_events T ec dl data ?s0 @ r2 @ r1"
    unfolding train_step_trace by simp
  also have "trace ?s0 = trace w"
    by (simp add: init_state_def)
  finally show ?thesis
    by (simp add: new_events_def)
qed

text \<open>
  Claim C10.  Let the optimizer be supported, let there be at least one epoch and one
  training batch, and let the three intervals be positive.  Then the run starts with the
  effects of one iteration made in the initial state, whose step is 0 on a fresh run
  (\<^verbatim>\<open>model_num == -1\<close>) and \<^verbatim>\<open>model_num\<close> on a resumed run.  On a fresh run this first
  iteration logs the training scalars at step 0, writes the periodic checkpoints of step 0,
  and runs a validation pass: it switches to evaluation mode and makes one forward pass
  for every batch that \<^verbatim>\<open>eval_model\<close> processes.
\<close>

theorem C10_first_iteration:
  assumes "create_optimizer T ec (net w) = Inr opt0"
    and "0 < num_epochs ec" and "train dl 0 = data # rest"
    and "0 < log_step ec" and "0 < model_save_step ec" and "0 < val_step ec"
    and "evs = new_events w (snd (train_model T dl ec w))"
    and "s0 = init_state w opt0"
  shows "step s0 = (if model_num (net w) = - 1 then 0 else model_num (net w)) \<and>
     prefix (new_events s0 (snd (train_step T ec dl data s0))) evs \<and>
     (model_num (net w) = - 1 \<longrightarrow>
        (\<exists>v. AddScalar ''Loss/Train'' v 0 \<in> set evs) \<and>
        (\<exists>ck. Save (path_join (model_dir ec) ''object_encoder_0'') ck \<in> set evs) \<and>
        sublist (SetTraining False #
                 replicate (length (consumed T ec (val dl 0) 0)) (Forward False False)) evs)"
proof -
  have st: "step s0 = (if model_num (net w) = - 1 then 0 else model_num (net w))"
    by (simp add: assms(8) init_state_def)
  obtain more where more: "evs = step_events T ec dl data s0 @ more"
    using train_model_first_step [OF assms(1,2,3)] by (auto simp: assms(7,8))
  then have pre: "prefix (new_events s0 (snd (train_step T ec dl data s0))) evs"
    by (simp add: new_events_train_step)
  have fresh: "(\<exists>v. AddScalar ''Loss/Train'' v 0 \<in> set evs) \<and>
        (\<exists>ck. Save (path_join (model_dir ec) ''object_encoder_0'') ck \<in> set evs) \<and>
        sublist (SetTraining False #
                 replicate (length (consumed T ec (val dl 0) 0)) (Forward False False)) evs"
    if "model_num (net w) = - 1"
  proof -
    from that st have 0: "step s0 = 0"
      by simp
    note eff = first_step_effects [OF assms(4,5,6) 0, of T dl data]
    from eff(1) have "\<exists>v. AddScalar ''Loss/Train'' v 0 \<in> set evs"
      by (auto simp: more)
    moreover from eff(2) have "\<exists>ck. Save (path_join (model_dir ec) ''object_encoder_0'') ck \<in> set evs"
      by (auto simp: more)
    moreover have "sublist (SetTraining False #
        replicate (length (consumed T ec (val dl 0) 0)) (Forward False False)) evs"
    proof -
      from eff(3) obtain ps ss where "step_events T ec dl data s0 =
          ps @ (SetTraining False #
            replicate (length (consumed T ec (val dl 0) 0)) (Forward False False)) @ ss"
        unfolding sublist_def by blast
      then have "evs = ps @ (SetTraining False #
            replicate (length (consumed T ec (val dl 0) 0)) (Forward False False)) @ (ss @ more)"
        by (simp add: more)
      then show ?thesis
        unfolding sublist_def by blast
    qed
    ultimately show ?thesis
      by blast
  qed
  from st pre fresh show ?thesis
    by blast
qed

text \<open>The demo run is fresh; the same run resumed from \<^verbatim>\<open>model_num = 4\<close> starts at step 4.\<close>

theorem C10_first_iteration_witness:
  "step demo_state = 0 \<and>
   prefix (new_events demo_state
             (snd (train_step demo_torch demo_const demo_loaders (1, 2) demo_state)))
     (new_events demo_world (snd (train_model demo_torch demo_loaders demo_const demo_world))) \<and>
   (\<exists>v. AddScalar ''Loss/Train'' v 0 \<in>
      set (new_events demo_world (snd (train_model demo_torch demo_loaders demo_const demo_world)))) \<and>
   (\<exists>ck. Save (path_join (model_dir demo_const) ''object_encoder_0'') ck \<in>
      set (new_events demo_world (snd (train_model demo_torch demo_loaders demo_const demo_world)))) \<and>
   sublist (SetTraining False #
            replicate (length (consumed demo_torch demo_const (val demo_loaders 0) 0))
              (Forward False False))
     (new_events demo_world (snd (train_model demo_torch demo_loaders demo_const demo_world))) \<and>
   step (init_state (demo_world\<lparr>net := (net demo_world)\<lparr>model_num := 4\<rparr>\<rparr>) (0::nat)) = 4"
proof -
  have o: "create_optimizer demo_torch demo_const (net demo_world) = Inr 0"
    by (simp add: create_optimizer_def demo_defs)
  have e: "0 < num_epochs demo_const" and t: "train demo_loaders 0 = (1, 2) # [(2, 2)]"
    and l: "0 < log_step demo_const" and m: "0 < model_save_step demo_const"
    and v: "0 < val_step demo_const"
    by (simp_all add: demo_defs)
  have fresh: "model_num (net demo_world) = - 1"
    by (simp add: demo_defs)
  note th = C10_first_iteration [OF o e t l m v refl demo_state_def]
  let ?w = "demo_world\<lparr>net := (net demo_world)\<lparr>model_num := 4\<rparr>\<rparr>"
  have o': "create_optimizer demo_torch demo_const (net ?w) = Inr 0"
    by (simp add: create_optimizer_def demo_defs)
  have "step (init_state ?w (0::nat)) = 4"
    using C10_first_iteration [OF o' e t l m v refl refl, THEN conjunct1] by simp
  with th fresh show ?thesis
    by simp
qed

section \<open>Substitution of the pad and mask embeddings\<close>

lemma bind_err_simps [simp]:
  "bind_err (Inl e) f = Inl e"
  "bind_err (Inr x) f = f x"
  by (simp_all add: bind_err_def)

lemma broadcast_shapes_mask_feat: "broadcast_shapes [B, T, Suc 0] [D] = Inr [B, T, D]"
  by (simp add: broadcast_shapes_def)

lemma broadcast_shapes_mask_features: "broadcast_shapes [B, T, Suc 0] [B, T, D] = Inr [B, T, D]"
  by (simp add: broadcast_shapes_def)

lemma broadcast_shapes_same: "broadcast_shapes [B, T, D] [B, T, D] = Inr [B, T, D]"
  by (simp add: broadcast_shapes_def)

lemma broadcast_index_3:
  "b < B \<Longrightarrow> t < T \<Longrightarrow> d < D \<Longrightarrow> broadcast_index [B, T, D] [b, t, d] = [b, t, d]"
  by (auto simp: broadcast_index_def)

lemma broadcast_index_mask:
  "b < B \<Longrightarrow> t < T \<Longrightarrow> broadcast_index [B, T, Suc 0] [b, t, d] = [b, t, 0]"
  by (auto simp: broadcast_index_def)

lemma broadcast_index_feat: "d < D \<Longrightarrow> broadcast_index [D] [b, t, d] = [d]"
  by (auto simp: broadcast_index_def)

text \<open>Multiplication by 1 and 0, addition of 0: the only arithmetic of the two blocks.\<close>

lemma fmul_one [simp]: "fmul (Finite 1) x = x"
  by (cases x) simp_all

lemma fmul_zero [simp]: "fmul (Finite 0) x = (if is_finite x then Finite 0 else NaN)"
  by (cases x) simp_all

lemma fadd_zero [simp]: "fadd x (Finite 0) = x" "fadd (Finite 0) x = x"
  by (cases x; simp)+

lemma fadd_NaN [simp]: "fadd x NaN = NaN"
  by (cases x) simp_all

lemma fsub_one [simp]:
  "fsub (Finite 1) (Finite 1) = Finite 0"
  "fsub (Finite 1) (Finite 0) = Finite 1"
  by (simp_all add: fsub_def)

text \<open>
  One block, \<open>m*feat + (1-m)*features\<close>, at a position inside the shapes: where the bit
  is set the result is the embedding unless the feature is not finite, and where it is
  not set the result is the feature unless the embedding is not finite; in both
  exceptions \<open>0 * x\<close> is \<^verbatim>\<open>nan\<close>.
\<close>

lemma substitute_canonical:
  assumes "shape object_features = [B, T, D]" and "shape mask_bits = [B, T]"
    and "shape feat = [D]"
  shows "\<exists>r. substitute feat mask_bits object_features = Inr r \<and> shape r = [B, T, D] \<and>
     (\<forall>b<B. \<forall>t<T. \<forall>d<D.
        elem r [b, t, d] =
          (if elem mask_bits [b, t]
           then (if is_finite (elem object_features [b, t, d]) then elem feat [d] else NaN)
           else (if is_finite (elem feat [d]) then elem object_features [b, t, d] else NaN)))"
  using assms
  by (simp add: substitute_def unsqueeze_def to_float_def binop_def scalar_minus_def Let_def
      broadcast_shapes_mask_feat broadcast_shapes_mask_features broadcast_shapes_same
      broadcast_index_3 broadcast_index_mask broadcast_index_feat)

text \<open>
  Claim C9.  Called with \<^verbatim>\<open>object_mask = None\<close> and \<^verbatim>\<open>pad_mask = None\<close>,
  \<^verbatim>\<open>preprocess_object_features\<close> returns its feature tensor unchanged, whatever its shape.
\<close>

theorem C9_preprocess_without_masks:
  "preprocess_object_features self object_features None None = Inr object_features"
  by (simp add: preprocess_object_features_def)

text \<open>Both blocks, exactly as the code computes them, special values included.\<close>

lemma preprocess_canonical:
  assumes "shape object_features = [B, T, D]"
    and "shape object_mask = [B, T]" and "shape pad_mask = [B, T]"
    and "shape (mask_feat self) = [D]" and "shape (pad_feat self) = [D]"
  shows "\<exists>pre.
     preprocess_object_features self object_features (Some object_mask) (Some pad_mask) = Inr pre \<and>
     shape pre = [B, T, D] \<and>
     (\<forall>b<B. \<forall>t<T. \<forall>d<D.
        elem pre [b, t, d] =
          (let masked =
             (if elem object_mask [b, t]
              then (if is_finite (elem object_features [b, t, d])
                    then elem (mask_feat self) [d] else NaN)
              else (if is_finite (elem (mask_feat self) [d])
                    then elem object_features [b, t, d] else NaN))
           in if elem pad_mask [b, t]
              then (if is_finite masked then elem (pad_feat self) [d] else NaN)
              else (if is_finite (elem (pad_feat self) [d]) then masked else NaN)))"
proof -
  obtain masked where masked:
    "substitute (mask_feat self) object_mask object_features = Inr masked"
    "shape masked = [B, T, D]"
    "\<forall>b<B. \<forall>t<T. \<forall>d<D. elem masked [b, t, d] =
       (if elem object_mask [b, t]
        then (if is_finite (elem object_features [b, t, d]) then elem (mask_feat self) [d] else NaN)
        else (if is_finite (elem (mask_feat self) [d]) then elem object_features [b, t, d]
              else NaN))"
    using substitute_canonical [OF assms(1,2,4)] by blast
  obtain pre where pre:
    "substitute (pad_feat self) pad_mask masked = Inr pre"
    "shape pre = [B, T, D]"
    "\<forall>b<B. \<forall>t<T. \<forall>d<D. elem pre [b, t, d] =
       (if elem pad_mask [b, t]
        then (if is_finite (elem masked [b, t, d]) then elem (pad_feat self) [d] else NaN)
        else (if is_finite (elem (pad_feat self) [d]) then elem masked [b, t, d] else NaN))"
    using substitute_canonical [OF masked(2) assms(3,5)] by blast
  have "preprocess_object_features self object_features (Some object_mask) (Some pad_mask) =
      Inr pre"
    by (simp add: preprocess_object_features_def masked(1) pre(1))
  moreover have "\<forall>b<B. \<forall>t<T. \<forall>d<D.
        elem pre [b, t, d] =
          (let masked =
             (if elem object_mask [b, t]
              then (if is_finite (elem object_features [b, t, d])
                    then elem (mask_feat self) [d] else NaN)
              else (if is_finite (elem (mask_feat self) [d])
                    then elem object_features [b, t, d] else NaN))
           in if elem pad_mask [b, t]
              then (if is_finite masked then elem (pad_feat self) [d] else NaN)
              else (if is_finite (elem (pad_feat self) [d]) then masked else NaN))"
    using pre(3) masked(3) by (simp add: Let_def)
  ultimately show ?thesis
    using pre(2) by blast
qed

lemma preprocess_finite:
  assumes "shape object_features = [B, T, D]"
    and "shape object_mask = [B, T]" and "shape pad_mask = [B, T]"
    and "shape (mask_feat self) = [D]" and "shape (pad_feat self) = [D]"
  shows "\<exists>pre.
     preprocess_object_features self object_features (Some object_mask) (Some pad_mask) = Inr pre \<and>
     shape pre = [B, T, D] \<and>
     (\<forall>b<B. \<forall>t<T. \<forall>d<D.
        is_finite (elem object_features [b, t, d]) \<and>
        is_finite (elem (mask_feat self) [d]) \<and> is_finite (elem (pad_feat self) [d]) \<longrightarrow>
        elem pre [b, t, d] =
          (if elem pad_mask [b, t] then elem (pad_feat self) [d]
           else if elem object_mask [b, t] then elem (mask_feat self) [d]
           else elem object_features [b, t, d]))"
proof -
  from preprocess_canonical [OF assms] obtain pre where pre:
    "preprocess_object_features self object_features (Some object_mask) (Some pad_mask) = Inr pre"
    "shape pre = [B, T, D]"
    "\<forall>b<B. \<forall>t<T. \<forall>d<D.
        elem pre [b, t, d] =
          (let masked =
             (if elem object_mask [b, t]
              then (if is_finite (elem object_features [b, t, d])
                    then elem (mask_feat self) [d] else NaN)
              else (if is_finite (elem (mask_feat self) [d])
                    then elem object_features [b, t, d] else NaN))
           in if elem pad_mask [b, t]
              then (if is_finite masked then elem (pad_feat self) [d] else NaN)
              else (if is_finite (elem (pad_feat self) [d]) then masked else NaN))"
    by blast
  have "elem pre [b, t, d] =
          (if elem pad_mask [b, t] then elem (pad_feat self) [d]
           else if elem object_mask [b, t] then elem (mask_feat self) [d]
           else elem object_features [b, t, d])"
    if "b < B" "t < T" "d < D" "is_finite (elem object_features [b, t, d])"
      "is_finite (elem (mask_feat self) [d])" "is_finite (elem (pad_feat self) [d])"
    for b t d
    using pre(3) [rule_format, OF that(1,2,3)] that(4,5,6) by (simp add: Let_def)
  with pre(1,2) show ?thesis
    by blast
qed

text \<open>
  Claim C8, as amended.  For features of shape \<open>B \<times> T \<times> D\<close>, masks of shape \<open>B \<times> T\<close> and
  embeddings of length \<open>D\<close>: at a position \<open>(b, t)\<close> where \<^verbatim>\<open>object_mask\<close> and \<^verbatim>\<open>pad_mask\<close> are
  both set, a component of the feature vector that \<^verbatim>\<open>preprocess_object_features\<close> returns
  is the component of \<^verbatim>\<open>pad_feat\<close>, not of \<^verbatim>\<open>mask_feat\<close>, if the original feature value and
  the component of \<^verbatim>\<open>mask_feat\<close> are finite floats, and \<^verbatim>\<open>nan\<close> otherwise.
\<close>

theorem C8_pad_overrides_mask:
  assumes "shape object_features = [B, T, D]"
    and "shape object_mask = [B, T]" and "shape pad_mask = [B, T]"
    and "shape (mask_feat self) = [D]" and "shape (pad_feat self) = [D]"
    and "b < B" and "t < T" and "d < D"
    and "elem object_mask [b, t]" and "elem pad_mask [b, t]"
  shows "\<exists>pre.
     preprocess_object_features self object_features (Some object_mask) (Some pad_mask) = Inr pre \<and>
     elem pre [b, t, d] =
       (if is_finite (elem object_features [b, t, d]) \<and> is_finite (elem (mask_feat self) [d])
        then elem (pad_feat self) [d] else NaN)"
proof -
  from preprocess_canonical [OF assms(1-5)] obtain pre where pre:
    "preprocess_object_features self object_features (Some object_mask) (Some pad_mask) = Inr pre"
    "\<forall>b<B. \<forall>t<T. \<forall>d<D.
        elem pre [b, t, d] =
          (let masked =
             (if elem object_mask [b, t]
              then (if is_finite (elem object_features [b, t, d])
                    then elem (mask_feat self) [d] else NaN)
              else (if is_finite (elem (mask_feat self) [d])
                    then elem object_features [b, t, d] else NaN))
           in if elem pad_mask [b, t]
              then (if is_finite masked then elem (pad_feat self) [d] else NaN)
              else (if is_finite (elem (pad_feat self) [d]) then masked else NaN))"
    by blast
  have "elem pre [b, t, d] =
       (if is_finite (elem object_features [b, t, d]) \<and> is_finite (elem (mask_feat self) [d])
        then elem (pad_feat self) [d] else NaN)"
    using pre(2) [rule_format, OF assms(6,7,8)] assms(9,10) by (simp add: Let_def)
  with pre(1) show ?thesis
    by blast
qed

lemma flat_index_div:
  fixes b t d T D :: nat
  assumes "t < T" and "d < D"
  shows "((b * T + t) * D + d) div (T * D) = b"
    and "((b * T + t) * D + d) mod (T * D) div D = t"
    and "((b * T + t) * D + d) mod (T * D) mod D = d"
proof -
  have lt: "t * D + d < T * D"
  proof -
    have "t * D + d < t * D + D" using assms(2) by simp
    also have "\<dots> = (t + 1) * D" by simp
    also have "\<dots> \<le> T * D" using assms(1) by (intro mult_le_mono1) simp
    finally show ?thesis .
  qed
  have eq: "(b * T + t) * D + d = b * (T * D) + (t * D + d)"
    by (simp add: algebra_simps)
  have pos: "0 < T" "0 < D"
    using assms by auto
  define n where "n = T * D"
  have n: "0 < n" "t * D + d < n"
    using pos lt by (simp_all add: n_def)
  show "((b * T + t) * D + d) div (T * D) = b"
    unfolding eq n_def [symmetric] using n by simp
  have m: "((b * T + t) * D + d) mod (T * D) = t * D + d"
    unfolding eq n_def [symmetric] using n by simp
  show "((b * T + t) * D + d) mod (T * D) div D = t"
    unfolding m using assms(2) by simp
  show "((b * T + t) * D + d) mod (T * D) mod D = d"
    unfolding m using assms(2) by simp
qed

lemma view_flatten:
  assumes "shape x = [B, T, D]" and "D \<noteq> 0"
  shows "\<exists>flat. view [- 1, int D] x = Inr flat \<and> shape flat = [B * T, D] \<and>
     (\<forall>b<B. \<forall>t<T. \<forall>d<D. elem flat [b * T + t, d] = elem x [b, t, d])"
proof -
  have "infer_shape [- 1, int D] (B * T * D) = Inr [B * T, D]"
    using assms(2) by (simp add: infer_shape_def)
  then have v: "view [- 1, int D] x =
      Inr \<lparr>shape = [B * T, D], elem = (\<lambda>idx. elem x (unravel [B, T, D] (ravel [B * T, D] idx)))\<rparr>"
    by (simp add: view_def assms(1) mult.assoc)
  have "unravel [B, T, D] (ravel [B * T, D] [b * T + t, d]) = [b, t, d]"
    if "t < T" "d < D" for b t d
    using flat_index_div [OF that, of b] by simp
  with v show ?thesis
    by simp
qed

text \<open>
  Claim C2, as amended.  For features of shape \<open>B \<times> T \<times> D\<close>, boolean masks of shape
  \<open>B \<times> T\<close> and embeddings of length \<open>D\<close>, \<^verbatim>\<open>forward\<close> computes
  \<open>pre = preprocess_object_features(object_features, object_mask, pad_mask)\<close> and everything
  after that is a function of \<open>pre\<close> alone: the input layer is applied to \<open>pre\<close> flattened to
  \<open>B * T\<close> rows, the context layer to the output of the input layer.  Wherever the feature
  value and the two embedding components are finite floats, \<open>pre\<close> holds \<^verbatim>\<open>pad_feat\<close> at a
  padded position, \<^verbatim>\<open>mask_feat\<close> at a masked position that is not padded, and the original
  feature at a position with both bits 0.
\<close>

theorem C2_substitution_before_contextualization:
  assumes "shape object_features = [B, T, D]"
    and "shape object_mask = [B, T]" and "shape pad_mask = [B, T]"
    and "shape (mask_feat self) = [D]" and "shape (pad_feat self) = [D]"
  shows "\<exists>pre.
     preprocess_object_features self object_features (Some object_mask) (Some pad_mask) = Inr pre \<and>
     forward self object_features (Some object_mask) (Some pad_mask) =
       contextualize_features self pre \<and>
     shape pre = [B, T, D] \<and>
     (\<forall>b<B. \<forall>t<T. \<forall>d<D.
        is_finite (elem object_features [b, t, d]) \<and>
        is_finite (elem (mask_feat self) [d]) \<and> is_finite (elem (pad_feat self) [d]) \<longrightarrow>
        elem pre [b, t, d] =
          (if elem pad_mask [b, t] then elem (pad_feat self) [d]
           else if elem object_mask [b, t] then elem (mask_feat self) [d]
           else elem object_features [b, t, d])) \<and>
     (D \<noteq> 0 \<longrightarrow>
        (\<exists>flat. view [- 1, int D] pre = Inr flat \<and> shape flat = [B * T, D] \<and>
           (\<forall>b<B. \<forall>t<T. \<forall>d<D. elem flat [b * T + t, d] = elem pre [b, t, d]) \<and>
           forward self object_features (Some object_mask) (Some pad_mask) =
             bind_err (view [int B, int T, - 1] (input_layer self flat))
               (\<lambda>transformer_input.
                  Inr (forward_output (context_layer self transformer_input)))))"
proof -
  from preprocess_finite [OF assms] obtain pre where pre:
    "preprocess_object_features self object_features (Some object_mask) (Some pad_mask) = Inr pre"
    "shape pre = [B, T, D]"
    "\<forall>b<B. \<forall>t<T. \<forall>d<D.
        is_finite (elem object_features [b, t, d]) \<and>
        is_finite (elem (mask_feat self) [d]) \<and> is_finite (elem (pad_feat self) [d]) \<longrightarrow>
        elem pre [b, t, d] =
          (if elem pad_mask [b, t] then elem (pad_feat self) [d]
           else if elem object_mask [b, t] then elem (mask_feat self) [d]
           else elem object_features [b, t, d])"
    by blast
  have fwd: "forward self object_features (Some object_mask) (Some pad_mask) =
      contextualize_features self pre"
    by (simp add: forward_def pre(1))
  have "\<exists>flat. view [- 1, int D] pre = Inr flat \<and> shape flat = [B * T, D] \<and>
           (\<forall>b<B. \<forall>t<T. \<forall>d<D. elem flat [b * T + t, d] = elem pre [b, t, d]) \<and>
           forward self object_features (Some object_mask) (Some pad_mask) =
             bind_err (view [int B, int T, - 1] (input_layer self flat))
               (\<lambda>transformer_input.
                  Inr (forward_output (context_layer self transformer_input)))"
    if "D \<noteq> 0"
  proof -
    from view_flatten [OF pre(2) that] obtain flat where flat:
      "view [- 1, int D] pre = Inr flat" "shape flat = [B * T, D]"
      "\<forall>b<B. \<forall>t<T. \<forall>d<D. elem flat [b * T + t, d] = elem pre [b, t, d]"
      by blast
    have "contextualize_features self pre =
        bind_err (view [int B, int T, - 1] (input_layer self flat))
          (\<lambda>transformer_input. Inr (forward_output (context_layer self transformer_input)))"
      by (simp add: contextualize_features_def pre(2) flat(1))
    with flat fwd show ?thesis
      by auto
  qed
  with pre fwd show ?thesis
    by blast
qed

lemmas demo_encoder_defs =
  demo_features_def demo_inf_features_def demo_object_mask_def demo_pad_mask_def
  demo_encoder_def of_list1_def of_list2_def of_list3_def

lemma demo_shapes:
  "shape demo_features = [2, 3, 2]"
  "shape demo_object_mask = [2, 3]"
  "shape demo_pad_mask = [2, 3]"
  "shape (mask_feat demo_encoder) = [2]"
  "shape (pad_feat demo_encoder) = [2]"
  by (simp_all add: demo_encoder_defs)

lemma demo_inf_shape: "shape demo_inf_features = [2, 3, 2]"
  by (simp add: demo_encoder_defs)

text \<open>
  Claim C8 as stated fails.  Position \<open>(0, 2)\<close> of the demo masks is both masked and
  padded, and the first component of \<^verbatim>\<open>pad_feat\<close> is 100; where the feature is infinite,
  \<^verbatim>\<open>preprocess_object_features\<close> returns \<^verbatim>\<open>nan\<close> there: \<open>(1-m)*x\<close> is \<open>0 * inf\<close>.
\<close>

theorem C8_infinite_feature_gives_nan:
  "elem demo_object_mask [0, 2] \<and> elem demo_pad_mask [0, 2] \<and>
   elem (pad_feat demo_encoder) [0] = Finite 100 \<and>
   elem_of (preprocess_object_features demo_encoder demo_inf_features
              (Some demo_object_mask) (Some demo_pad_mask)) [0, 2, 0] = Some NaN"
proof -
  from preprocess_canonical [OF demo_inf_shape demo_shapes(2-5)] obtain pre where pre:
    "preprocess_object_features demo_encoder demo_inf_features
       (Some demo_object_mask) (Some demo_pad_mask) = Inr pre"
    "\<forall>b<2. \<forall>t<3. \<forall>d<2.
        elem pre [b, t, d] =
          (let masked =
             (if elem demo_object_mask [b, t]
              then (if is_finite (elem demo_inf_features [b, t, d])
                    then elem (mask_feat demo_encoder) [d] else NaN)
              else (if is_finite (elem (mask_feat demo_encoder) [d])
                    then elem demo_inf_features [b, t, d] else NaN))
           in if elem demo_pad_mask [b, t]
              then (if is_finite masked then elem (pad_feat demo_encoder) [d] else NaN)
              else (if is_finite (elem (pad_feat demo_encoder) [d]) then masked else NaN))"
    by blast
  have "elem pre [0, 2, 0] = NaN"
    using pre(2) [rule_format, of 0 2 0] by (simp add: demo_encoder_defs)
  then show ?thesis
    by (simp add: pre(1) elem_of_def) (simp add: demo_encoder_defs)
qed

text \<open>In the demo tensors with finite features, position \<open>(0, 2)\<close> holds \<^verbatim>\<open>pad_feat\<close>.\<close>

theorem C8_pad_overrides_mask_witness:
  "elem demo_object_mask [0, 2] \<and> elem demo_pad_mask [0, 2] \<and>
   elem_of (preprocess_object_features demo_encoder demo_features
              (Some demo_object_mask) (Some demo_pad_mask)) [0, 2, 1] = Some (Finite 200)"
proof -
  have om: "elem demo_object_mask [0, 2]" and pm: "elem demo_pad_mask [0, 2]"
    by (simp_all add: demo_encoder_defs)
  from C8_pad_overrides_mask [OF demo_shapes, of 0 2 1, OF _ _ _ om pm] obtain pre where
    "preprocess_object_features demo_encoder demo_features
       (Some demo_object_mask) (Some demo_pad_mask) = Inr pre"
    "elem pre [0, 2, 1] =
       (if is_finite (elem demo_features [0, 2, 1]) \<and> is_finite (elem (mask_feat demo_encoder) [1])
        then elem (pad_feat demo_encoder) [1] else NaN)"
    by auto
  then have "elem_of (preprocess_object_features demo_encoder demo_features
              (Some demo_object_mask) (Some demo_pad_mask)) [0, 2, 1] = Some (Finite 200)"
    by (simp add: elem_of_def) (simp add: demo_encoder_defs)
  with om pm show ?thesis
    by simp
qed

text \<open>
  Claim C2 as stated fails.  Position \<open>(0, 0)\<close> of the demo masks is masked and not padded,
  and the first component of \<^verbatim>\<open>mask_feat\<close> is -1; where the feature is infinite, the tensor
  that \<^verbatim>\<open>forward\<close> passes on holds \<^verbatim>\<open>nan\<close> there.
\<close>

theorem C2_infinite_feature_gives_nan:
  "elem demo_object_mask [0, 0] \<and> \<not> elem demo_pad_mask [0, 0] \<and>
   elem (mask_feat demo_encoder) [0] = Finite (- 1) \<and>
   elem_of (preprocess_object_features demo_encoder demo_inf_features
              (Some demo_object_mask) (Some demo_pad_mask)) [0, 0, 0] = Some NaN"
proof -
  from preprocess_canonical [OF demo_inf_shape demo_shapes(2-5)] obtain pre where pre:
    "preprocess_object_features demo_encoder demo_inf_features
       (Some demo_object_mask) (Some demo_pad_mask) = Inr pre"
    "\<forall>b<2. \<forall>t<3. \<forall>d<2.
        elem pre [b, t, d] =
          (let masked =
             (if elem demo_object_mask [b, t]
              then (if is_finite (elem demo_inf_features [b, t, d])
                    then elem (mask_feat demo_encoder) [d] else NaN)
              else (if is_finite (elem (mask_feat demo_encoder) [d])
                    then elem demo_inf_features [b, t, d] else NaN))
           in if elem demo_pad_mask [b, t]
              then (if is_finite masked then elem (pad_feat demo_encoder) [d] else NaN)
              else (if is_finite (elem (pad_feat demo_encoder) [d]) then masked else NaN))"
    by blast
  have "elem pre [0, 0, 0] = NaN"
    using pre(2) [rule_format, of 0 0 0] by (simp add: demo_encoder_defs)
  then show ?thesis
    by (simp add: pre(1) elem_of_def) (simp add: demo_encoder_defs)
qed

text \<open>The demo tensors with finite features: a masked position, an untouched one and a
  padded one.\<close>

theorem C2_substitution_before_contextualization_witness:
  "\<exists>pre. preprocess_object_features demo_encoder demo_features
           (Some demo_object_mask) (Some demo_pad_mask) = Inr pre \<and>
         forward demo_encoder demo_features (Some demo_object_mask) (Some demo_pad_mask) =
           contextualize_features demo_encoder pre \<and>
         shape pre = [2, 3, 2] \<and>
         elem pre [0, 0, 0] = Finite (- 1) \<and> elem pre [0, 1, 0] = Finite 3 \<and>
         elem pre [1, 1, 1] = Finite 200 \<and>
         (\<exists>flat. view [- 1, 2] pre = Inr flat \<and> shape flat = [6, 2] \<and>
            elem flat [4, 1] = Finite 200 \<and>
            forward demo_encoder demo_features (Some demo_object_mask) (Some demo_pad_mask) =
              bind_err (view [2, 3, - 1] (input_layer demo_encoder flat))
                (\<lambda>transformer_input.
                   Inr (forward_output (context_layer demo_encoder transformer_input))))"
proof -
  from C2_substitution_before_contextualization [OF demo_shapes] obtain pre where pre:
    "preprocess_object_features demo_encoder demo_features
       (Some demo_object_mask) (Some demo_pad_mask) = Inr pre"
    "forward demo_encoder demo_features (Some demo_object_mask) (Some demo_pad_mask) =
       contextualize_features demo_encoder pre"
    "shape pre = [2, 3, 2]"
    "\<forall>b<2. \<forall>t<3. \<forall>d<2.
        is_finite (elem demo_features [b, t, d]) \<and>
        is_finite (elem (mask_feat demo_encoder) [d]) \<and>
        is_finite (elem (pad_feat demo_encoder) [d]) \<longrightarrow>
        elem pre [b, t, d] =
          (if elem demo_pad_mask [b, t] then elem (pad_feat demo_encoder) [d]
           else if elem demo_object_mask [b, t] then elem (mask_feat demo_encoder) [d]
           else elem demo_features [b, t, d])"
    "\<exists>flat. view [- 1, int 2] pre = Inr flat \<and> shape flat = [2 * 3, 2] \<and>
       (\<forall>b<2. \<forall>t<3. \<forall>d<2. elem flat [b * 3 + t, d] = elem pre [b, t, d]) \<and>
       forward demo_encoder demo_features (Some demo_object_mask) (Some demo_pad_mask) =
         bind_err (view [int 2, int 3, - 1] (input_layer demo_encoder flat))
           (\<lambda>transformer_input.
              Inr (forward_output (context_layer demo_encoder transformer_input)))"
    by auto
  have e1: "elem pre [0, 0, 0] = Finite (- 1)"
    using pre(4) [rule_format, of 0 0 0] by (simp add: demo_encoder_defs)
  have e2: "elem pre [0, 1, 0] = Finite 3"
    using pre(4) [rule_format, of 0 1 0] by (simp add: demo_encoder_defs)
  have e3: "elem pre [1, 1, 1] = Finite 200"
    using pre(4) [rule_format, of 1 1 1] by (simp add: demo_encoder_defs)
  from pre(5) obtain flat where flat:
    "view [- 1, 2] pre = Inr flat" "shape flat = [6, 2]"
    "\<forall>b<2. \<forall>t<3. \<forall>d<2. elem flat [b * 3 + t, d] = elem pre [b, t, d]"
    "forward demo_encoder demo_features (Some demo_object_mask) (Some demo_pad_mask) =
       bind_err (view [2, 3, - 1] (input_layer demo_encoder flat))
         (\<lambda>transformer_input.
            Inr (forward_output (context_layer demo_encoder transformer_input)))"
    by auto
  have "elem flat [4, 1] = Finite 200"
    using flat(3) [rule_format, of 1 1 1] e3 by simp
  with pre(1,2,3) e1 e2 e3 flat(1,2,4) show ?thesis
    by blast
qed

section \<open>The schedule of checkpoints over a run\<close>

lemma val_history_simps [simp]:
  "val_history [] = []"
  "val_history (e # tr) = val_logged e @ val_history tr"
  "val_history (tr @ tr') = val_history tr @ val_history tr'"
  by (simp_all add: val_history_def)

lemma periodic_steps_simps [simp]:
  "periodic_steps [] = []"
  "periodic_steps (e # tr) = periodic_step_of e @ periodic_steps tr"
  "periodic_steps (tr @ tr') = periodic_steps tr @ periodic_steps tr'"
  by (simp_all add: periodic_steps_def)

lemma best_records_simps [simp]:
  "best_records [] = []"
  "best_records (e # tr) = best_record_of e @ best_records tr"
  "best_records (tr @ tr') = best_records tr @ best_records tr'"
  by (simp_all add: best_records_def)

lemma projections_replicate_Forward [simp]:
  "val_history (replicate n (Forward a b)) = []"
  "periodic_steps (replicate n (Forward a b)) = []"
  "best_records (replicate n (Forward a b)) = []"
  by (induction n) simp_all

lemma saves_of_scalars [simp]:
  "periodic_steps (map (\<lambda>(name, v). AddScalar name v st) items) = []"
  "best_records (map (\<lambda>(name, v). AddScalar name v st) items) = []"
  by (induction items) auto

lemma projections_periodic_checkpoints [simp]:
  "val_history (periodic_checkpoints ec s) = []"
  "periodic_steps (periodic_checkpoints ec s) = replicate (files_per_save ec) (step s)"
  "best_records (periodic_checkpoints ec s) = []"
  by (simp_all add: periodic_checkpoints_def save_items_def files_per_save_def
      numeral_eq_Suc)

lemma projections_best_checkpoints [simp]:
  "val_history (best_checkpoints ec v s) = []"
  "periodic_steps (best_checkpoints ec v s) = []"
  "best_records (best_checkpoints ec v s) = replicate (files_per_save ec) (v, step s)"
  by (simp_all add: best_checkpoints_def best_save_items_def files_per_save_def
      numeral_eq_Suc)

lemma projections_log_events [simp]:
  "val_history (log_events ec ls st) = []"
  "periodic_steps (log_events ec ls st) = []"
  "best_records (log_events ec ls st) = []"
  by (simp_all add: log_events_def train_log_items_def case_prod_beta)

lemma projections_save_events [simp]:
  "val_history (save_events ec s) = []"
  "periodic_steps (save_events ec s) =
     (if step s mod model_save_step ec = 0 then replicate (files_per_save ec) (step s) else [])"
  "best_records (save_events ec s) = []"
  by (simp_all add: save_events_def)

lemma projections_val_events:
  "val_history (val_events T ec dl s) =
     (if val_step ec \<noteq> 0 \<and> step s mod val_step ec = 0 then
        (case eval_value T ec (val dl (step s)) (net s) of
           Inl e \<Rightarrow> [] | Inr res \<Rightarrow> [(total_loss res, step s)])
      else [])"
  "periodic_steps (val_events T ec dl s) = []"
  "best_records (val_events T ec dl s) =
     concat (map (replicate (files_per_save ec))
       (improvements (best_val_loss s) (val_history (val_events T ec dl s))))"
  by (simp_all add: val_events_def val_log_items_def split: sum.splits)

lemma improvements_append:
  "improvements best (xs @ ys) =
     improvements best xs @ improvements (foldl min best (map fst xs)) ys"
  by (induction xs arbitrary: best) auto

lemma steps_from_Suc: "steps_from start (Suc n) = steps_from start n @ [start + int n]"
  by (simp add: steps_from_def)

lemma backward_passes_step_events:
  "backward_passes (step_events T ec dl data s) = [step_loss T ec data s]"
  by (simp add: step_events_def case_prod_beta step_loss_def)

lemma val_history_step_events:
  "val_history (step_events T ec dl data s) =
     (if log_step ec \<noteq> 0 \<and> model_save_step ec \<noteq> 0
      then val_history (val_events T ec dl (snd (forward_backward T ec data s))) else [])"
  by (simp add: step_events_def case_prod_beta)

lemma periodic_steps_step_events:
  "periodic_steps (step_events T ec dl data s) =
     (if log_step ec \<noteq> 0 \<and> model_save_step ec \<noteq> 0 \<and> step s mod model_save_step ec = 0
      then replicate (files_per_save ec) (step s) else [])"
  by (simp add: step_events_def case_prod_beta projections_val_events)

lemma best_records_step_events:
  "best_records (step_events T ec dl data s) =
     concat (map (replicate (files_per_save ec))
       (improvements (best_val_loss s) (val_history (step_events T ec dl data s))))"
proof -
  let ?s1 = "snd (forward_backward T ec data s)"
  have "best_records (val_events T ec dl ?s1) =
      concat (map (replicate (files_per_save ec))
        (improvements (best_val_loss s) (val_history (val_events T ec dl ?s1))))"
    using projections_val_events(3) [of T ec dl ?s1] by simp
  then show ?thesis
    by (simp add: step_events_def case_prod_beta)
qed

lemma train_step_best_history:
  "best_val_loss (snd (train_step T ec dl data s)) =
     foldl min (best_val_loss s) (map fst (val_history (step_events T ec dl data s)))"
  by (simp add: train_step_best val_history_step_events projections_val_events min.commute
      split: sum.splits)

lemma train_step_val_steps:
  assumes "fst (train_step T ec dl data s) = None"
  shows "map snd (val_history (step_events T ec dl data s)) =
     filter (\<lambda>st. st mod val_step ec = 0) [step s]"
  using assms
  by (auto simp: train_step_fst val_history_step_events projections_val_events
      split: if_splits sum.splits)

lemma train_step_val_error:
  assumes "fst (train_step T ec dl data s) \<noteq> None"
  shows "val_history (step_events T ec dl data s) = []"
  using assms
  by (auto simp: train_step_fst val_history_step_events projections_val_events
      split: if_splits sum.splits)

lemma loop_inv_post: "loop_inv ec start tr0 s \<Longrightarrow> loop_post ec start tr0 (None, s)"
  by (auto simp: loop_inv_def loop_post_def)

lemma train_step_schedule:
  assumes "loop_inv ec start tr0 s"
  shows "loop_post ec start tr0 (train_step T ec dl data s)"
proof -
  from assms obtain evs where evs: "trace s = tr0 @ evs" "schedule_ok ec start evs"
      "step s = start + int (length (backward_passes evs))"
      "best_val_loss s = foldl min 10000 (map fst (val_history evs))"
      "map snd (val_history evs) =
         filter (\<lambda>st. st mod val_step ec = 0) (steps_from start (length (backward_passes evs)))"
    unfolding loop_inv_def by blast
  let ?sev = "step_events T ec dl data s"
  let ?r = "train_step T ec dl data s"
  let ?evs' = "evs @ ?sev"
  have tr: "trace (snd ?r) = tr0 @ ?evs'"
    by (simp add: train_step_trace evs(1))
  have n: "length (backward_passes ?evs') = Suc (length (backward_passes evs))"
    by (simp add: backward_passes_step_events)
  have per: "periodic_steps ?evs' =
      concat (map (replicate (files_per_save ec))
        (filter (\<lambda>st. st mod model_save_step ec = 0)
           (steps_from start (length (backward_passes ?evs')))))"
    if "log_step ec \<noteq> 0 \<and> model_save_step ec \<noteq> 0"
  proof -
    from that evs(2) have "periodic_steps evs =
        concat (map (replicate (files_per_save ec))
          (filter (\<lambda>st. st mod model_save_step ec = 0)
             (steps_from start (length (backward_passes evs)))))"
      by (simp add: schedule_ok_def)
    then show ?thesis
      unfolding n steps_from_Suc using that evs(3)
      by (simp add: periodic_steps_step_events)
  qed
  have best: "best_records ?evs' =
      concat (map (replicate (files_per_save ec)) (improvements 10000 (val_history ?evs')))"
    using evs(2,4)
    by (simp add: schedule_ok_def improvements_append best_records_step_events)
  have ok: "schedule_ok ec start ?evs'"
    using per best unfolding schedule_ok_def by blast
  have inv: "loop_inv ec start tr0 (snd ?r)" if none: "fst ?r = None"
  proof -
    have "step (snd ?r) = start + int (length (backward_passes ?evs'))"
      unfolding n using none evs(3) by (simp add: train_step_step)
    moreover have "best_val_loss (snd ?r) = foldl min 10000 (map fst (val_history ?evs'))"
      by (simp add: train_step_best_history evs(4))
    moreover have "map snd (val_history ?evs') =
        filter (\<lambda>st. st mod val_step ec = 0) (steps_from start (length (backward_passes ?evs')))"
      unfolding n steps_from_Suc using evs(3,5) train_step_val_steps [OF none]
      by simp
    ultimately show ?thesis
      unfolding loop_inv_def using tr ok by blast
  qed
  have err: "map snd (val_history ?evs') =
      filter (\<lambda>st. st mod val_step ec = 0)
        (butlast (steps_from start (length (backward_passes ?evs'))))"
    if "fst ?r \<noteq> None"
    unfolding n steps_from_Suc using evs(5) train_step_val_error [OF that]
    by simp
  from tr ok inv err show ?thesis
    unfolding loop_post_def by blast
qed

lemma train_batches_schedule:
  assumes "loop_inv ec start tr0 s"
  shows "loop_post ec start tr0 (train_batches T ec dl ds s)"
  using assms
proof (induction ds arbitrary: s)
  case Nil
  then show ?case
    by (simp add: loop_inv_post)
next
  case (Cons d ds)
  have post: "loop_post ec start tr0 (train_step T ec dl d s)"
    by (rule train_step_schedule [OF Cons.prems])
  show ?case
  proof (cases "fst (train_step T ec dl d s)")
    case None
    with post have "loop_inv ec start tr0 (snd (train_step T ec dl d s))"
      by (simp add: loop_post_def)
    from Cons.IH [OF this] None show ?thesis
      by (simp add: seq_def case_prod_beta)
  next
    case (Some e)
    then have "train_batches T ec dl (d # ds) s = train_step T ec dl d s"
      by (simp add: seq_def case_prod_beta prod_eq_iff)
    with post show ?thesis
      by simp
  qed
qed

lemma train_epochs_schedule:
  assumes "loop_inv ec start tr0 s"
  shows "loop_post ec start tr0 (train_epochs T ec dl es s)"
  using assms
proof (induction es arbitrary: s)
  case Nil
  then show ?case
    by (simp add: loop_inv_post)
next
  case (Cons e es)
  have post: "loop_post ec start tr0 (train_batches T ec dl (train dl e) s)"
    by (rule train_batches_schedule [OF Cons.prems])
  show ?case
  proof (cases "fst (train_batches T ec dl (train dl e) s)")
    case None
    with post have "loop_inv ec start tr0 (snd (train_batches T ec dl (train dl e) s))"
      by (simp add: loop_post_def)
    from Cons.IH [OF this] None show ?thesis
      by (simp add: seq_def case_prod_beta)
  next
    case (Some err)
    then have "train_epochs T ec dl (e # es) s = train_batches T ec dl (train dl e) s"
      by (simp add: seq_def case_prod_beta prod_eq_iff)
    with post show ?thesis
      by simp
  qed
qed

text \<open>
  Claim C7.  Over a whole run of \<^verbatim>\<open>train_model\<close>, whether it returns or raises: let \<open>steps\<close>
  be the steps of its iterations, \<open>start, start + 1, \<dots>\<close>, one per backward pass, and
  \<open>k\<close> the number of files of a save.  Then

    \<^item> the periodic checkpoint files are exactly \<open>k\<close> files for each of the steps with
      \<open>step mod model_save_step = 0\<close>, in order, and none for any other step (if
      \<^verbatim>\<open>log_step\<close> or \<^verbatim>\<open>model_save_step\<close> is zero the first iteration raises
      \<^verbatim>\<open>ZeroDivisionError\<close> before any save);

    \<^item> the best checkpoint files are exactly \<open>k\<close> files for each validation pass whose total
      loss is strictly less than the best loss so far, that is, than the initial 10000 and
      than the losses of all validation passes before it, recording that loss and the
      step of the pass; a validation pass without such an improvement writes none;

    \<^item> the validation passes are those of the steps with \<open>step mod val_step = 0\<close>; in a run
      that raises, the last iteration has no completed validation pass.

  That the loss of a validation pass at step \<open>step s\<close> is the total loss returned by
  \<^verbatim>\<open>eval_model\<close> is lemma \<open>projections_val_events\<close>.
\<close>

theorem C7_checkpoint_schedule:
  assumes "evs = new_events w (snd (train_model T dl ec w))"
    and "start = (if model_num (net w) = - 1 then 0 else model_num (net w))"
    and "steps = map (\<lambda>i. start + int i) [0..<length (backward_passes evs)]"
    and "k = (if random_lang ec then 4 else 3)"
  shows "(log_step ec \<noteq> 0 \<and> model_save_step ec \<noteq> 0 \<longrightarrow>
        periodic_steps evs =
          concat (map (replicate k) (filter (\<lambda>st. st mod model_save_step ec = 0) steps))) \<and>
     best_records evs = concat (map (replicate k) (improvements 10000 (val_history evs))) \<and>
     map snd (val_history evs) =
       filter (\<lambda>st. st mod val_step ec = 0)
         (if fst (train_model T dl ec w) = None then steps else butlast steps)"
proof (cases "create_optimizer T ec (net w)")
  case (Inl e)
  then have "evs = []" and "fst (train_model T dl ec w) \<noteq> None"
    by (simp_all add: assms(1) train_model_def)
  then show ?thesis
    by (simp add: assms(3))
next
  case (Inr opt0)
  let ?s0 = "init_state w opt0"
  let ?r = "train_epochs T ec dl [0..<nat (num_epochs ec)] ?s0"
  have "loop_inv ec start (trace w) ?s0"
    by (simp add: loop_inv_def schedule_ok_def init_state_def assms(2) steps_from_def)
  then have post: "loop_post ec start (trace w) ?r"
    by (rule train_epochs_schedule)
  have tm: "train_model T dl ec w = (fst ?r, final_world (snd ?r))"
    by (simp add: train_model_def Inr case_prod_beta)
  have evs: "trace (snd ?r) = trace w @ evs"
    using post by (auto simp: loop_post_def assms(1) tm new_events_def final_world_def)
  from post evs have ok: "schedule_ok ec start evs"
    by (auto simp: loop_post_def)
  have ret: "map snd (val_history evs) = filter (\<lambda>st. st mod val_step ec = 0) steps"
    if "fst (train_model T dl ec w) = None"
  proof -
    from that post have "loop_inv ec start (trace w) (snd ?r)"
      by (simp add: loop_post_def tm)
    with evs show ?thesis
      by (auto simp: loop_inv_def assms(3) steps_from_def)
  qed
  have err: "map snd (val_history evs) =
      filter (\<lambda>st. st mod val_step ec = 0) (butlast steps)"
    if "fst (train_model T dl ec w) \<noteq> None"
    using that post evs
    by (auto simp: loop_post_def tm assms(3) steps_from_def)
  from ok ret err show ?thesis
    by (simp add: schedule_ok_def assms(3,4) steps_from_def files_per_save_def)
qed

lemma demo_run_returns:
  "fst (train_model demo_torch demo_loaders demo_const demo_world) = None"
  by code_simp

text \<open>The demo run: two iterations at the steps 0 and 1 with \<^verbatim>\<open>model_save_step = 2\<close> and
  \<^verbatim>\<open>val_step = 1\<close>; periodic checkpoints at step 0 only, and both validation losses improve
  on the best loss before them.\<close>

theorem C7_checkpoint_schedule_witness:
  "log_step demo_const \<noteq> 0 \<and> model_save_step demo_const \<noteq> 0 \<and>
   fst (train_model demo_torch demo_loaders demo_const demo_world) = None \<and>
   backward_passes
     (new_events demo_world (snd (train_model demo_torch demo_loaders demo_const demo_world))) =
     [3, 3] \<and>
   val_history
     (new_events demo_world (snd (train_model demo_torch demo_loaders demo_const demo_world))) =
     [(11 / 3, 0), (28 / 9, 1)] \<and>
   periodic_steps
     (new_events demo_world (snd (train_model demo_torch demo_loaders demo_const demo_world))) =
     [0, 0, 0] \<and>
   best_records
     (new_events demo_world (snd (train_model demo_torch demo_loaders demo_const demo_world))) =
     [(11 / 3, 0), (11 / 3, 0), (11 / 3, 0), (28 / 9, 1), (28 / 9, 1), (28 / 9, 1)]"
proof -
  let ?evs = "new_events demo_world
    (snd (train_model demo_torch demo_loaders demo_const demo_world))"
  have l: "log_step demo_const \<noteq> 0 \<and> model_save_step demo_const \<noteq> 0"
    by (simp add: demo_defs)
  have b: "backward_passes ?evs = [3, 3]"
    by (simp add: demo_run)
  have v: "val_history ?evs = [(11 / 3, 0), (28 / 9, 1)]"
    by (simp add: demo_run)
  have m: "model_save_step demo_const = 2" "random_lang demo_const = False"
    "model_num (net demo_world) = - 1"
    by (simp_all add: demo_defs)
  have i: "improvements 10000 [(11 / 3, 0), (28 / 9, 1)] = [(11 / 3, 0), (28 / 9, 1)]"
    by simp
  from C7_checkpoint_schedule [OF refl refl refl refl,
      of demo_const demo_world demo_torch demo_loaders] l
  have "periodic_steps ?evs = [0, 0, 0]"
    and "best_records ?evs =
      [(11 / 3, 0), (11 / 3, 0), (11 / 3, 0), (28 / 9, 1), (28 / 9, 1), (28 / 9, 1)]"
    unfolding b v i m by (simp_all add: numeral_2_eq_2 numeral_3_eq_3)
  with l b v demo_run_returns show ?thesis
    by blast
qed

end
